theory Spec2Isabelle
  imports Complex_Main "HOL-Library.FSet"
begin

section \<open>The maze table and the constants derived from it\<close>

text \<open>
  The module-level table \<open>MAZE_LAYOUT\<close> of \<open>pacman.py\<close>, row by row as the source
  spells it. Rows 6 and 21 have 29 characters, every other row has 28.
\<close>

definition MAZE_LAYOUT :: "string list" where
  "MAZE_LAYOUT =
   [''1111111111111111111111111111'',
    ''1222222222111222222222222221'',
    ''1211112112111211112111111121'',
    ''1320002112222211002110000121'',
    ''1211112112111211112111111121'',
    ''1222222222222222222222222221'',
    ''121111211111H1111112111111121'',
    ''1211112111111111112111111121'',
    ''1222222222111222222222222221'',
    ''1111112111111111111112111111'',
    ''0000012112222222222112110000'',
    ''1111012112111111112112111111'',
    ''1222212112133333312112222221'',
    ''1111012112111111112112011111'',
    ''0000012112222222222112000000'',
    ''1111112111111111111112111111'',
    ''1222222222111222222222222221'',
    ''1211112112111211112111111121'',
    ''1320002112222211002110000121'',
    ''1211112112111211112111111121'',
    ''1222222222222222222222222221'',
    ''121111211111H1111112111111121'',
    ''1211112111111111112111111121'',
    ''1222222222111222222222222221'',
    ''1111111111111111111111111111'',
    ''1000000000000000000000000001'',
    ''1333333333333333333333333331'',
    ''1222222222222222222222222221'',
    ''1211111111111111111111111121'',
    ''1222222222222222222222222221'',
    ''1111111111111111111111111111'']"

definition SCREEN_WIDTH :: int where "SCREEN_WIDTH = 800"
definition SCREEN_HEIGHT :: int where "SCREEN_HEIGHT = 600"

text \<open>\<open>ROWS = len(MAZE_LAYOUT)\<close>, \<open>COLS = len(MAZE_LAYOUT[0])\<close>.\<close>

definition ROWS :: int where "ROWS = int (length MAZE_LAYOUT)"
definition COLS :: int where "COLS = int (length (hd MAZE_LAYOUT))"

definition TILE_SIZE :: int where
  "TILE_SIZE = min (SCREEN_WIDTH div COLS) (SCREEN_HEIGHT div ROWS)"
definition MAZE_WIDTH :: int where "MAZE_WIDTH = COLS * TILE_SIZE"
definition MAZE_HEIGHT :: int where "MAZE_HEIGHT = ROWS * TILE_SIZE"
definition OFFSET_X :: int where "OFFSET_X = (SCREEN_WIDTH - MAZE_WIDTH) div 2"
definition OFFSET_Y :: int where "OFFSET_Y = (SCREEN_HEIGHT - MAZE_HEIGHT) div 2"

definition PACMAN_SPEED :: int where "PACMAN_SPEED = 100"
definition GHOST_SPEED :: int where "GHOST_SPEED = 90"
definition VULNERABLE_SPEED :: int where "VULNERABLE_SPEED = 70"
definition POWER_DURATION :: real where "POWER_DURATION = 7"
definition START_LIVES :: int where "START_LIVES = 3"
definition DOT_SCORE :: int where "DOT_SCORE = 10"
definition POWER_SCORE :: int where "POWER_SCORE = 50"
definition GHOST_SCORE :: int where "GHOST_SCORE = 200"

section \<open>Cell queries\<close>

text \<open>
  \<open>xs[i]\<close> in Python: positions \<open>0\<close> to \<open>len(xs) - 1\<close> are read directly,
  positions \<open>-len(xs)\<close> to \<open>-1\<close> are read from the end, and every other position
  raises \<open>IndexError\<close>, which is \<open>None\<close> here.
\<close>

definition py_index :: "'a list \<Rightarrow> int \<Rightarrow> 'a option" where
  "py_index xs i =
     (if 0 \<le> i \<and> i < int (length xs) then Some (xs ! nat i)
      else if - int (length xs) \<le> i \<and> i < 0 then Some (xs ! nat (int (length xs) + i))
      else None)"

text \<open>\<open>MAZE_LAYOUT[row][col]\<close>.\<close>

definition maze_at :: "int \<Rightarrow> int \<Rightarrow> char option" where
  "maze_at c r =
     (case py_index MAZE_LAYOUT r of None \<Rightarrow> None | Some line \<Rightarrow> py_index line c)"

definition is_inside_grid :: "int \<Rightarrow> int \<Rightarrow> bool" where
  "is_inside_grid c r \<longleftrightarrow> 0 \<le> r \<and> r < ROWS \<and> 0 \<le> c \<and> c < COLS"

definition is_wall :: "int \<Rightarrow> int \<Rightarrow> bool" where
  "is_wall c r =
     (if 0 \<le> r \<and> r < ROWS \<and> 0 \<le> c \<and> c < COLS
      then maze_at c r = Some CHR ''1'' \<or> maze_at c r = Some CHR ''H''
      else True)"

definition is_door :: "int \<Rightarrow> int \<Rightarrow> bool" where
  "is_door c r =
     (if 0 \<le> r \<and> r < ROWS \<and> 0 \<le> c \<and> c < COLS
      then maze_at c r = Some CHR ''H''
      else False)"

definition grid_to_world :: "int \<Rightarrow> int \<Rightarrow> int \<times> int" where
  "grid_to_world c r =
     (OFFSET_X + c * TILE_SIZE + TILE_SIZE div 2, OFFSET_Y + r * TILE_SIZE + TILE_SIZE div 2)"

section \<open>Rectangles\<close>

text \<open>
  \<open>pygame.Rect\<close> with its four integer fields; \<open>rect.right\<close> and \<open>rect.bottom\<close> are
  derived.
\<close>

record rect =
  rect_left :: int
  rect_top :: int
  rect_width :: int
  rect_height :: int

definition rect_right :: "rect \<Rightarrow> int" where "rect_right r = rect_left r + rect_width r"
definition rect_bottom :: "rect \<Rightarrow> int" where "rect_bottom r = rect_top r + rect_height r"

definition Rect :: "int \<Rightarrow> int \<Rightarrow> int \<Rightarrow> int \<Rightarrow> rect" where
  "Rect l t w h = \<lparr>rect_left = l, rect_top = t, rect_width = w, rect_height = h\<rparr>"

definition rect_for_cell :: "int \<Rightarrow> int \<Rightarrow> rect" where
  "rect_for_cell c r =
     Rect (OFFSET_X + c * TILE_SIZE) (OFFSET_Y + r * TILE_SIZE) TILE_SIZE TILE_SIZE"

text \<open>
  \<open>pygame.Rect.colliderect\<close> is library code: two rectangles collide when their
  interiors overlap; a rectangle of width or height zero collides with nothing.
\<close>

definition colliderect :: "rect \<Rightarrow> rect \<Rightarrow> bool" where
  "colliderect a b \<longleftrightarrow>
     rect_width a \<noteq> 0 \<and> rect_height a \<noteq> 0 \<and> rect_width b \<noteq> 0 \<and> rect_height b \<noteq> 0 \<and>
     min (rect_left a) (rect_right a) < max (rect_left b) (rect_right b) \<and>
     min (rect_top a) (rect_bottom a) < max (rect_top b) (rect_bottom b) \<and>
     max (rect_left a) (rect_right a) > min (rect_left b) (rect_right b) \<and>
     max (rect_top a) (rect_bottom a) > min (rect_top b) (rect_bottom b)"

text \<open>
  \<open>hits_wall\<close> and \<open>hits_wall_eyes\<close>: the tile range overlapped by the rectangle is
  clamped to the grid, and the two nested \<open>for\<close> loops return \<open>True\<close> at the first
  blocking tile that collides with the rectangle. Every index the loops use lies inside
  the grid, where \<open>MAZE_LAYOUT[r][c]\<close> is defined (lemma \<open>maze_at_inside\<close>).
\<close>

definition hits_wall :: "rect \<Rightarrow> bool" where
  "hits_wall rc =
     (let l = max 0 ((rect_left rc - OFFSET_X) div TILE_SIZE);
          r = min (COLS - 1) ((rect_right rc - 1 - OFFSET_X) div TILE_SIZE);
          t = max 0 ((rect_top rc - OFFSET_Y) div TILE_SIZE);
          b = min (ROWS - 1) ((rect_bottom rc - 1 - OFFSET_Y) div TILE_SIZE)
      in list_ex (\<lambda>j. list_ex (\<lambda>i.
           (maze_at i j = Some CHR ''1'' \<or> maze_at i j = Some CHR ''H'') \<and>
           colliderect rc (rect_for_cell i j)) [l..r]) [t..b])"

definition hits_wall_eyes :: "rect \<Rightarrow> bool" where
  "hits_wall_eyes rc =
     (let l = max 0 ((rect_left rc - OFFSET_X) div TILE_SIZE);
          r = min (COLS - 1) ((rect_right rc - 1 - OFFSET_X) div TILE_SIZE);
          t = max 0 ((rect_top rc - OFFSET_Y) div TILE_SIZE);
          b = min (ROWS - 1) ((rect_bottom rc - 1 - OFFSET_Y) div TILE_SIZE)
      in list_ex (\<lambda>j. list_ex (\<lambda>i.
           maze_at i j = Some CHR ''1'' \<and>
           colliderect rc (rect_for_cell i j)) [l..r]) [t..b])"

text \<open>
  The Door tiles a rectangle overlaps, scanned the same way. Not a function of the
  source: it names the difference between the two tests above.
\<close>

definition hits_door :: "rect \<Rightarrow> bool" where
  "hits_door rc =
     (let l = max 0 ((rect_left rc - OFFSET_X) div TILE_SIZE);
          r = min (COLS - 1) ((rect_right rc - 1 - OFFSET_X) div TILE_SIZE);
          t = max 0 ((rect_top rc - OFFSET_Y) div TILE_SIZE);
          b = min (ROWS - 1) ((rect_bottom rc - 1 - OFFSET_Y) div TILE_SIZE)
      in list_ex (\<lambda>j. list_ex (\<lambda>i.
           maze_at i j = Some CHR ''H'' \<and>
           colliderect rc (rect_for_cell i j)) [l..r]) [t..b])"

section \<open>Entities\<close>

text \<open>
  Positions, the time step and the power timer are Python floats, that is IEEE 754
  double-precision numbers. A double is a real number, so these fields have type
  \<open>real\<close>. The subtraction that makes the power timer decay is rounded as the source
  rounds it (\<open>double_sub\<close> below); the arithmetic of the positions is exact. The colour
  of an entity is a rendering concern and is left out. The fields \<open>x\<close> and \<open>y\<close> of the
  source are \<open>xpos\<close> and \<open>ypos\<close> here.
\<close>

datatype mode = Normal | Vulnerable | Eyes

datatype behavior = Chase | Random

datatype error = TypeError | IndexError | ZeroDivisionError

type_synonym cell = "int \<times> int"

record Entity =
  col :: int
  row :: int
  xpos :: real
  ypos :: real
  radius :: int
  dir :: "int \<times> int"
  target_dir :: "int \<times> int"

record Pacman = Entity +
  lives :: int
  score :: int
  power_timer :: real

record Ghost = Entity +
  spawn :: cell
  home :: cell
  mode :: mode
  behavior :: behavior
  flash_timer :: real

text \<open>Python's \<open>int(v)\<close> on a float truncates towards zero.\<close>

definition py_int :: "real \<Rightarrow> int" where
  "py_int v = (if 0 \<le> v then \<lfloor>v\<rfloor> else \<lceil>v\<rceil>)"

definition entity_rect :: "'a Entity_scheme \<Rightarrow> rect" where
  "entity_rect e =
     Rect (py_int (xpos e - real_of_int (radius e))) (py_int (ypos e - real_of_int (radius e)))
          (radius e * 2) (radius e * 2)"

definition grid_pos :: "'a Entity_scheme \<Rightarrow> cell" where
  "grid_pos e =
     (\<lfloor>(xpos e - real_of_int OFFSET_X) / real_of_int TILE_SIZE\<rfloor>,
      \<lfloor>(ypos e - real_of_int OFFSET_Y) / real_of_int TILE_SIZE\<rfloor>)"

definition center_in_cell :: "'a Entity_scheme \<Rightarrow> 'a Entity_scheme" where
  "center_in_cell e =
     e\<lparr>xpos := real_of_int (fst (grid_to_world (col e) (row e))),
       ypos := real_of_int (snd (grid_to_world (col e) (row e)))\<rparr>"

text \<open>\<open>Entity.__init__\<close>, \<open>Pacman.__init__\<close> and \<open>Ghost.__init__\<close>.\<close>

definition new_Pacman :: "int \<Rightarrow> int \<Rightarrow> Pacman" where
  "new_Pacman c r =
     \<lparr>col = c, row = r,
      xpos = real_of_int (fst (grid_to_world c r)), ypos = real_of_int (snd (grid_to_world c r)),
      radius = TILE_SIZE div 2 - 2, dir = (0, 0), target_dir = (0, 0),
      lives = START_LIVES, score = 0, power_timer = 0\<rparr>"

definition new_Ghost :: "int \<Rightarrow> int \<Rightarrow> int \<Rightarrow> int \<Rightarrow> behavior \<Rightarrow> Ghost" where
  "new_Ghost c r home_col home_row beh =
     \<lparr>col = c, row = r,
      xpos = real_of_int (fst (grid_to_world c r)), ypos = real_of_int (snd (grid_to_world c r)),
      radius = TILE_SIZE div 2 - 3, dir = (0, 0), target_dir = (0, 0),
      spawn = (c, r), home = (home_col, home_row), mode = Normal, behavior = beh,
      flash_timer = 0\<rparr>"

subsection \<open>Double-precision subtraction\<close>

text \<open>
  Python's \<open>a - b\<close> on floats is the exact difference rounded to the nearest double,
  ties to the even significand. A double in the normal range has 53 significant bits:
  in the binade \<open>[2^e, 2^(e+1))\<close> neighbouring doubles are \<open>2^(e-52)\<close> apart, and below
  \<open>2^(-1022)\<close> (the subnormal range) they are \<open>2^(-1074)\<close> apart. \<open>binade n a\<close> finds
  \<open>e\<close> for a positive \<open>a\<close> by doubling or halving at most \<open>n\<close> times, which reaches
  every double. Overflow to infinity is not modelled: the only difference the program
  forms this way is \<open>power_timer - dt\<close> with a timer of at most seven seconds and a frame
  time that is not negative, and \<open>max(0.0, ...)\<close> of a large negative difference is
  \<open>0.0\<close> with or without overflow.
\<close>

definition round_half_even :: "real \<Rightarrow> int" where
  "round_half_even v =
     (if v - real_of_int \<lfloor>v\<rfloor> < 1 / 2 then \<lfloor>v\<rfloor>
      else if 1 / 2 < v - real_of_int \<lfloor>v\<rfloor> then \<lfloor>v\<rfloor> + 1
      else if even \<lfloor>v\<rfloor> then \<lfloor>v\<rfloor> else \<lfloor>v\<rfloor> + 1)"

fun binade :: "nat \<Rightarrow> real \<Rightarrow> int" where
  "binade 0 a = 0"
| "binade (Suc n) a =
     (if a < 1 then binade n (2 * a) - 1
      else if 2 \<le> a then binade n (a / 2) + 1
      else 0)"

definition double_round :: "real \<Rightarrow> real" where
  "double_round v =
     (if v = 0 then 0
      else (let e = max (- 1022) (binade 1100 \<bar>v\<bar>);
                ulp = 2 powi (e - 52)
            in real_of_int (round_half_even (v / ulp)) * ulp))"

definition double_sub :: "real \<Rightarrow> real \<Rightarrow> real" where
  "double_sub a b = double_round (a - b)"

subsection \<open>The player\<close>

definition set_direction :: "int \<Rightarrow> int \<Rightarrow> Pacman \<Rightarrow> Pacman" where
  "set_direction dc dr p = p\<lparr>target_dir := (dc, dr)\<rparr>"

definition try_change_dir :: "int \<Rightarrow> int \<Rightarrow> int \<times> int \<Rightarrow> int \<times> int" where
  "try_change_dir c r td =
     (case td of (dc, dr) \<Rightarrow>
        if dc = 0 \<and> dr = 0 then (0, 0)
        else if \<not> is_wall (c + dc) (r + dr) then (dc, dr)
        else (0, 0))"

text \<open>\<open>Pacman.update(dt, walls)\<close>; the argument \<open>walls\<close> is never read.\<close>

definition Pacman_update :: "real \<Rightarrow> Pacman \<Rightarrow> Pacman" where
  "Pacman_update dt p0 =
     (let cx = fst (grid_to_world (col p0) (row p0));
          cy = snd (grid_to_world (col p0) (row p0));
          p1 = (if \<bar>xpos p0 - real_of_int cx\<bar> \<le> 2 \<and> \<bar>ypos p0 - real_of_int cy\<bar> \<le> 2
                then p0\<lparr>xpos := real_of_int cx, ypos := real_of_int cy,
                        dir := try_change_dir (col p0) (row p0) (target_dir p0)\<rparr>
                else p0);
          dx = real_of_int (fst (dir p1) * PACMAN_SPEED) * dt;
          dy = real_of_int (snd (dir p1) * PACMAN_SPEED) * dt;
          p2 = p1\<lparr>xpos := xpos p1 + dx\<rparr>;
          p3 = (if hits_wall (entity_rect p2) then p2\<lparr>xpos := xpos p2 - dx\<rparr> else p2);
          p4 = p3\<lparr>ypos := ypos p3 + dy\<rparr>;
          p5 = (if hits_wall (entity_rect p4) then p4\<lparr>ypos := ypos p4 - dy\<rparr> else p4);
          p6 = p5\<lparr>col := fst (grid_pos p5), row := snd (grid_pos p5)\<rparr>
      in if power_timer p6 > 0
         then p6\<lparr>power_timer := max 0 (double_sub (power_timer p6) dt)\<rparr>
         else p6)"

subsection \<open>The pursuers\<close>

definition set_vulnerable :: "Ghost \<Rightarrow> Ghost" where
  "set_vulnerable g = (if mode g \<noteq> Eyes then g\<lparr>mode := Vulnerable, flash_timer := 0\<rparr> else g)"

definition set_normal :: "Ghost \<Rightarrow> Ghost" where
  "set_normal g = g\<lparr>mode := Normal\<rparr>"

definition set_eyes :: "Ghost \<Rightarrow> Ghost" where
  "set_eyes g = g\<lparr>mode := Eyes\<rparr>"

definition speed :: "Ghost \<Rightarrow> int" where
  "speed g = (if mode g = Vulnerable then VULNERABLE_SPEED else GHOST_SPEED)"

text \<open>The four directions in the order every loop of the source visits them.\<close>

definition DIRS :: "(int \<times> int) list" where
  "DIRS = [(1, 0), (-1, 0), (0, 1), (0, -1)]"

text \<open>
  The loop of \<open>Ghost.update\<close> that builds \<open>options\<close>: a direction is appended when its
  neighbour is not a wall and it is not the reverse of the current direction, or the
  list built so far is empty.
\<close>

fun build_options :: "Ghost \<Rightarrow> (int \<times> int) list \<Rightarrow> (int \<times> int) list \<Rightarrow> (int \<times> int) list" where
  "build_options g [] options = options"
| "build_options g (d # ds) options =
     build_options g ds
       (if \<not> is_wall (col g + fst d) (row g + snd d) \<and>
           ((- fst d, - snd d) \<noteq> dir g \<or> length options = 0)
        then options @ [d] else options)"

definition sq_dist :: "cell \<Rightarrow> cell \<Rightarrow> int" where
  "sq_dist a b = (fst a - fst b) ^ 2 + (snd a - snd b) ^ 2"

text \<open>
  The two selection loops: \<open>best\<close> starts as \<open>None\<close> and is replaced whenever the
  distance of an option beats \<open>best_dist\<close> (strictly larger when fleeing, strictly
  smaller when approaching), so the first of several equal options wins.
\<close>

fun pick_farthest :: "cell \<Rightarrow> cell \<Rightarrow> (int \<times> int) list \<Rightarrow> (int \<times> int) option \<Rightarrow> int \<Rightarrow> (int \<times> int) option" where
  "pick_farthest here tgt [] best best_dist = best"
| "pick_farthest here tgt (d # ds) best best_dist =
     (let dist = sq_dist (fst here + fst d, snd here + snd d) tgt
      in if dist > best_dist then pick_farthest here tgt ds (Some d) dist
         else pick_farthest here tgt ds best best_dist)"

fun pick_nearest :: "cell \<Rightarrow> cell \<Rightarrow> (int \<times> int) list \<Rightarrow> (int \<times> int) option \<Rightarrow> int \<Rightarrow> (int \<times> int) option" where
  "pick_nearest here tgt [] best best_dist = best"
| "pick_nearest here tgt (d # ds) best best_dist =
     (let dist = sq_dist (fst here + fst d, snd here + snd d) tgt
      in if dist < best_dist then pick_nearest here tgt ds (Some d) dist
         else pick_nearest here tgt ds best best_dist)"

text \<open>
  \<open>Ghost._choose_dir\<close>. The result \<open>None\<close> is Python's \<open>None\<close>, which the chase loop
  returns when no option is nearer than \<open>1e9\<close>. \<open>random.choice\<close> is modelled by an
  index \<open>rnd\<close> supplied from outside.
\<close>

definition choose_dir :: "nat \<Rightarrow> Pacman \<Rightarrow> Ghost \<Rightarrow> (int \<times> int) list \<Rightarrow> (int \<times> int) option" where
  "choose_dir rnd p g options =
     (if options = [] then Some (0, 0)
      else if mode g = Vulnerable
        then pick_farthest (col g, row g) (col p, row p) options None (- 1)
      else if behavior g = Random
        then Some (options ! (rnd mod length options))
      else pick_nearest (col g, row g) (col p, row p) options None 1000000000)"

text \<open>
  \<open>Ghost._move_towards\<close>. Using a direction that is \<open>None\<close> raises \<open>TypeError\<close>.
\<close>

definition move_towards :: "real \<Rightarrow> cell \<Rightarrow> Ghost \<Rightarrow> error + Ghost" where
  "move_towards dt target_cell g0 =
     (let options = filter (\<lambda>d. is_inside_grid (col g0 + fst d) (row g0 + snd d) \<and>
                                maze_at (col g0 + fst d) (row g0 + snd d) \<noteq> Some CHR ''1'') DIRS;
          best = (if options \<noteq> []
                  then pick_nearest (col g0, row g0) target_cell options None 1000000000
                  else Some (dir g0))
      in case best of
           None \<Rightarrow> Inl TypeError
         | Some d \<Rightarrow>
            (let g1 = g0\<lparr>dir := d\<rparr>;
                 dx = real_of_int (fst (dir g1) * (GHOST_SPEED + 30)) * dt;
                 dy = real_of_int (snd (dir g1) * (GHOST_SPEED + 30)) * dt;
                 g2 = g1\<lparr>xpos := xpos g1 + dx\<rparr>;
                 g3 = (if hits_wall_eyes (entity_rect g2)
                       then g2\<lparr>xpos := xpos g2 - dx, dir := (0, 0)\<rparr> else g2);
                 g4 = g3\<lparr>ypos := ypos g3 + dy\<rparr>;
                 g5 = (if hits_wall_eyes (entity_rect g4)
                       then g4\<lparr>ypos := ypos g4 - dy, dir := (0, 0)\<rparr> else g4)
             in Inr (g5\<lparr>col := fst (grid_pos g5), row := snd (grid_pos g5)\<rparr>)))"

text \<open>\<open>Ghost.update(dt, pacman)\<close>.\<close>

definition Ghost_update :: "real \<Rightarrow> Pacman \<Rightarrow> nat \<Rightarrow> Ghost \<Rightarrow> error + Ghost" where
  "Ghost_update dt p rnd g0 =
     (if mode g0 = Eyes then
        (case move_towards dt (home g0) g0 of
           Inl e \<Rightarrow> Inl e
         | Inr g1 \<Rightarrow>
            if (col g1, row g1) = home g1
            then Inr (set_normal (center_in_cell (g1\<lparr>col := fst (spawn g1), row := snd (spawn g1)\<rparr>)))
            else Inr g1)
      else
        (let cx = fst (grid_to_world (col g0) (row g0));
             cy = snd (grid_to_world (col g0) (row g0));
             at_center = (\<bar>xpos g0 - real_of_int cx\<bar> \<le> 2 \<and> \<bar>ypos g0 - real_of_int cy\<bar> \<le> 2);
             chosen = (if at_center then choose_dir rnd p g0 (build_options g0 DIRS [])
                       else Some (dir g0))
         in case chosen of
              None \<Rightarrow> Inl TypeError
            | Some d \<Rightarrow>
               (let g1 = (if at_center
                          then g0\<lparr>xpos := real_of_int cx, ypos := real_of_int cy, dir := d\<rparr>
                          else g0);
                    dx = real_of_int (fst (dir g1) * speed g1) * dt;
                    dy = real_of_int (snd (dir g1) * speed g1) * dt;
                    g2 = g1\<lparr>xpos := xpos g1 + dx\<rparr>;
                    g3 = (if hits_wall (entity_rect g2)
                          then g2\<lparr>xpos := xpos g2 - dx, dir := (0, 0)\<rparr> else g2);
                    g4 = g3\<lparr>ypos := ypos g3 + dy\<rparr>;
                    g5 = (if hits_wall (entity_rect g4)
                          then g4\<lparr>ypos := ypos g4 - dy, dir := (0, 0)\<rparr> else g4)
                in Inr (g5\<lparr>col := fst (grid_pos g5), row := snd (grid_pos g5)\<rparr>))))"

subsection \<open>The stages of an update\<close>

text \<open>
  The three update methods share their shape: near the centre of its cell an entity is
  snapped to the centre and given a direction; then it is moved along x and along y,
  each move undone when the rectangle hits a blocking tile (a ghost also loses its
  direction then), and its cell is recomputed. The definitions below name these stages;
  the lemmas \<open>Pacman_update_stages\<close>, \<open>move_towards_stages\<close> and
  \<open>Ghost_update_stages\<close> show that the methods above are their compositions.
\<close>

definition near_center :: "'a Entity_scheme \<Rightarrow> bool" where
  "near_center e \<longleftrightarrow>
     \<bar>xpos e - real_of_int (fst (grid_to_world (col e) (row e)))\<bar> \<le> 2 \<and>
     \<bar>ypos e - real_of_int (snd (grid_to_world (col e) (row e)))\<bar> \<le> 2"

definition snap_to :: "int \<times> int \<Rightarrow> 'a Entity_scheme \<Rightarrow> 'a Entity_scheme" where
  "snap_to d e =
     e\<lparr>xpos := real_of_int (fst (grid_to_world (col e) (row e))),
       ypos := real_of_int (snd (grid_to_world (col e) (row e))), dir := d\<rparr>"

definition slide :: "(rect \<Rightarrow> bool) \<Rightarrow> bool \<Rightarrow> int \<Rightarrow> real \<Rightarrow> 'a Entity_scheme \<Rightarrow> 'a Entity_scheme" where
  "slide blocked stop v dt e =
     (let dx = real_of_int (fst (dir e) * v) * dt;
          dy = real_of_int (snd (dir e) * v) * dt;
          e2 = e\<lparr>xpos := xpos e + dx\<rparr>;
          e3 = (if blocked (entity_rect e2)
                then (if stop then e2\<lparr>xpos := xpos e2 - dx, dir := (0, 0)\<rparr>
                      else e2\<lparr>xpos := xpos e2 - dx\<rparr>)
                else e2);
          e4 = e3\<lparr>ypos := ypos e3 + dy\<rparr>;
          e5 = (if blocked (entity_rect e4)
                then (if stop then e4\<lparr>ypos := ypos e4 - dy, dir := (0, 0)\<rparr>
                      else e4\<lparr>ypos := ypos e4 - dy\<rparr>)
                else e4)
      in e5\<lparr>col := fst (grid_pos e5), row := snd (grid_pos e5)\<rparr>)"

definition decay :: "real \<Rightarrow> Pacman \<Rightarrow> Pacman" where
  "decay dt p =
     (if power_timer p > 0 then p\<lparr>power_timer := max 0 (double_sub (power_timer p) dt)\<rparr>
      else p)"

text \<open>The options of an Eyes-mode ghost and the direction \<open>_move_towards\<close> settles on.\<close>

definition eyes_options :: "Ghost \<Rightarrow> (int \<times> int) list" where
  "eyes_options g =
     filter (\<lambda>d. is_inside_grid (col g + fst d) (row g + snd d) \<and>
                  maze_at (col g + fst d) (row g + snd d) \<noteq> Some CHR ''1'') DIRS"

definition eyes_dir :: "cell \<Rightarrow> Ghost \<Rightarrow> (int \<times> int) option" where
  "eyes_dir target_cell g =
     (if eyes_options g \<noteq> []
      then pick_nearest (col g, row g) target_cell (eyes_options g) None 1000000000
      else Some (dir g))"

definition respawn :: "Ghost \<Rightarrow> Ghost" where
  "respawn g = set_normal (center_in_cell (g\<lparr>col := fst (spawn g), row := snd (spawn g)\<rparr>))"

section \<open>The game\<close>

text \<open>
  The state that \<open>main\<close> keeps between frames. The pickup sets are finite sets of cells
  \<open>(col, row)\<close>.
\<close>

record game =
  pacman :: Pacman
  dots :: "cell fset"
  power :: "cell fset"
  ghosts :: "Ghost list"
  game_over :: bool
  win :: bool

text \<open>\<open>handle_pacman_eats\<close> returns \<open>ate\<close> and leaves the player and both sets updated.\<close>

definition handle_pacman_eats ::
  "Pacman \<Rightarrow> cell fset \<Rightarrow> cell fset \<Rightarrow> bool \<times> Pacman \<times> cell fset \<times> cell fset" where
  "handle_pacman_eats p0 dots0 power0 =
     (let cell = (col p0, row p0);
          ate1 = (cell |\<in>| dots0);
          dots1 = (if cell |\<in>| dots0 then dots0 |-| {|cell|} else dots0);
          p1 = (if cell |\<in>| dots0 then p0\<lparr>score := score p0 + DOT_SCORE\<rparr> else p0);
          ate2 = (if cell |\<in>| power0 then True else ate1);
          power1 = (if cell |\<in>| power0 then power0 |-| {|cell|} else power0);
          p2 = (if cell |\<in>| power0
                then p1\<lparr>score := score p1 + POWER_SCORE, power_timer := POWER_DURATION\<rparr>
                else p1)
      in (ate2, p2, dots1, power1))"

text \<open>
  \<open>check_collisions\<close> returns the colliding ghost objects in roster order; they are
  named here by their index in \<open>ghosts\<close>, since the caller mutates them in place.
\<close>

definition check_collisions :: "Pacman \<Rightarrow> Ghost list \<Rightarrow> nat list" where
  "check_collisions p gs =
     filter (\<lambda>i. colliderect (entity_rect p) (entity_rect (gs ! i))) [0..<length gs]"

definition reset_ghost :: "Ghost \<Rightarrow> Ghost" where
  "reset_ghost g =
     set_normal ((center_in_cell (g\<lparr>col := fst (spawn g), row := snd (spawn g)\<rparr>))\<lparr>dir := (0, 0)\<rparr>)"

definition reset_positions :: "Pacman \<Rightarrow> Ghost list \<Rightarrow> Pacman \<times> Ghost list" where
  "reset_positions p gs =
     ((center_in_cell p)\<lparr>dir := (0, 0), target_dir := (0, 0)\<rparr>, map reset_ghost gs)"

text \<open>
  Lines 539 to 544 of \<open>main\<close>: the player eats, and when it ate anything while its power
  timer is positive every ghost is told to become vulnerable.
\<close>

definition eat_and_broadcast :: "game \<Rightarrow> game" where
  "eat_and_broadcast s =
     (case handle_pacman_eats (pacman s) (dots s) (power s) of
        (ate, p, ds, pw) \<Rightarrow>
          s\<lparr>pacman := p, dots := ds, power := pw,
            ghosts := (if ate \<and> power_timer p > 0 then map set_vulnerable (ghosts s)
                       else ghosts s)\<rparr>)"

text \<open>
  Lines 546 to 548: every ghost is updated in roster order; ghost \<open>i\<close> draws \<open>rnd i\<close>.
  An exception in one update ends the frame.
\<close>

fun update_ghosts :: "real \<Rightarrow> Pacman \<Rightarrow> (nat \<Rightarrow> nat) \<Rightarrow> nat \<Rightarrow> Ghost list \<Rightarrow> error + Ghost list" where
  "update_ghosts dt p rnd i [] = Inr []"
| "update_ghosts dt p rnd i (g # gs) =
     (case Ghost_update dt p (rnd i) g of
        Inl e \<Rightarrow> Inl e
      | Inr g' \<Rightarrow>
         (case update_ghosts dt p rnd (Suc i) gs of
            Inl e \<Rightarrow> Inl e
          | Inr gs' \<Rightarrow> Inr (g' # gs')))"

text \<open>Lines 550 to 554: vulnerable ghosts turn normal when the power timer is zero.\<close>

definition end_power :: "Pacman \<Rightarrow> Ghost list \<Rightarrow> Ghost list" where
  "end_power p gs =
     (if power_timer p = 0
      then map (\<lambda>g. if mode g = Vulnerable then set_normal g else g) gs
      else gs)"

text \<open>
  Lines 558 to 568: the loop over the hits. A vulnerable ghost is captured; a normal
  ghost costs a life, resets all positions and ends the loop (\<open>break\<close>); a ghost in Eyes
  mode is passed over.
\<close>

fun resolve_hits :: "nat list \<Rightarrow> game \<Rightarrow> game" where
  "resolve_hits [] s = s"
| "resolve_hits (i # hits) s =
     (if mode (ghosts s ! i) = Vulnerable then
        resolve_hits hits
          (s\<lparr>ghosts := (ghosts s)[i := set_eyes (ghosts s ! i)],
             pacman := (pacman s)\<lparr>score := score (pacman s) + GHOST_SCORE\<rparr>\<rparr>)
      else if mode (ghosts s ! i) = Normal then
        (let p1 = (pacman s)\<lparr>lives := lives (pacman s) - 1\<rparr>;
             over = (if lives p1 \<le> 0 then True else game_over s)
         in case reset_positions p1 (ghosts s) of
              (p2, gs2) \<Rightarrow> s\<lparr>pacman := p2, ghosts := gs2, game_over := over\<rparr>)
      else resolve_hits hits s)"

definition collisions :: "game \<Rightarrow> game" where
  "collisions s = resolve_hits (check_collisions (pacman s) (ghosts s)) s"

text \<open>Lines 570 to 572.\<close>

definition check_win :: "game \<Rightarrow> game" where
  "check_win s = (if fcard (dots s) + fcard (power s) = 0 then s\<lparr>win := True\<rparr> else s)"

text \<open>
  One pass of the simulation block of the main loop (lines 535 to 572) for a frame of
  length \<open>dt\<close>. Event handling and drawing are outside the model.
\<close>

definition tick :: "real \<Rightarrow> (nat \<Rightarrow> nat) \<Rightarrow> game \<Rightarrow> error + game" where
  "tick dt rnd s =
     (if \<not> (game_over s \<or> win s) then
        (let s1 = eat_and_broadcast (s\<lparr>pacman := Pacman_update dt (pacman s)\<rparr>)
         in case update_ghosts dt (pacman s1) rnd 0 (ghosts s1) of
              Inl e \<Rightarrow> Inl e
            | Inr gs \<Rightarrow>
                Inr (check_win (collisions (s1\<lparr>ghosts := end_power (pacman s1) gs\<rparr>))))
      else Inr s)"

text \<open>A sequence of frames, each with its time step and its random draws.\<close>

fun run :: "(real \<times> (nat \<Rightarrow> nat)) list \<Rightarrow> game \<Rightarrow> error + game" where
  "run [] s = Inr s"
| "run ((dt, rnd) # frames) s =
     (case tick dt rnd s of Inl e \<Rightarrow> Inl e | Inr s' \<Rightarrow> run frames s')"

section \<open>Loading\<close>

text \<open>
  The search of \<open>main\<close> for the player's start column in row \<open>ROWS - 2\<close>, leftwards
  from the middle.
\<close>

fun seek_start_col :: "int list \<Rightarrow> int" where
  "seek_start_col [] = COLS div 2"
| "seek_start_col (dc # rest) =
     (let c = COLS div 2 - dc
      in if c < 1 then COLS div 2
         else if maze_at c (ROWS - 2) \<noteq> Some CHR ''1'' then c
         else seek_start_col rest)"

definition start_cell :: cell where
  "start_cell = (seek_start_col [0..COLS - 1], ROWS - 2)"

text \<open>
  What the module does with a maze table \<open>m\<close> when it is loaded, with the table as a
  parameter: \<open>ROWS\<close>, \<open>COLS\<close> and \<open>TILE_SIZE\<close> are computed from it
  (\<open>m[0]\<close> raises \<open>IndexError\<close> on an empty table, \<open>SCREEN_WIDTH // COLS\<close> raises
  \<open>ZeroDivisionError\<close> on an empty first row), and \<open>load_dots\<close> reads \<open>m[r][c]\<close> for
  every \<open>r < ROWS\<close> and \<open>c < COLS\<close>.
\<close>

definition module_consts :: "string list \<Rightarrow> error + (int \<times> int \<times> int)" where
  "module_consts m =
     (case py_index m 0 of
        None \<Rightarrow> Inl IndexError
      | Some line \<Rightarrow>
         (let rows = int (length m); cols = int (length line)
          in if cols = 0 then Inl ZeroDivisionError
             else Inr (rows, cols, min (SCREEN_WIDTH div cols) (SCREEN_HEIGHT div rows))))"

fun load_cells :: "string list \<Rightarrow> (int \<times> int) list \<Rightarrow> cell fset \<times> cell fset \<Rightarrow> error + (cell fset \<times> cell fset)" where
  "load_cells m [] acc = Inr acc"
| "load_cells m ((r, c) # rest) (ds, pw) =
     (case py_index m r of
        None \<Rightarrow> Inl IndexError
      | Some line \<Rightarrow>
         (case py_index line c of
            None \<Rightarrow> Inl IndexError
          | Some ch \<Rightarrow>
             load_cells m rest
               (if ch = CHR ''2'' then (finsert (c, r) ds, pw)
                else if ch = CHR ''3'' then (ds, finsert (c, r) pw)
                else (ds, pw))))"

definition load_dots_of :: "string list \<Rightarrow> error + (cell fset \<times> cell fset)" where
  "load_dots_of m =
     (case module_consts m of
        Inl e \<Rightarrow> Inl e
      | Inr (rows, cols, tile) \<Rightarrow>
          load_cells m (List.product [0..rows - 1] [0..cols - 1]) ({||}, {||}))"

definition load_dots :: "error + (cell fset \<times> cell fset)" where
  "load_dots = load_dots_of MAZE_LAYOUT"

definition rectangular :: "string list \<Rightarrow> bool" where
  "rectangular m = list_all (\<lambda>line. length line = length (hd m)) m"

section \<open>Reachability in the maze\<close>

text \<open>
  A cell can be entered when it lies inside the grid and is not a Wall: a Corridor for
  everyone, a Door for a pursuer in Eyes mode. One cell is reachable from another along
  steps to axis neighbours that can be entered.
\<close>

definition enterable :: "cell \<Rightarrow> bool" where
  "enterable a \<longleftrightarrow> is_inside_grid (fst a) (snd a) \<and> maze_at (fst a) (snd a) \<noteq> Some CHR ''1''"

definition corridor :: "cell \<Rightarrow> bool" where
  "corridor a \<longleftrightarrow> is_inside_grid (fst a) (snd a) \<and> \<not> is_wall (fst a) (snd a)"

definition on_border :: "cell \<Rightarrow> bool" where
  "on_border a \<longleftrightarrow> is_inside_grid (fst a) (snd a) \<and>
     (fst a = 0 \<or> fst a = COLS - 1 \<or> snd a = 0 \<or> snd a = ROWS - 1)"

inductive reachable :: "cell \<Rightarrow> cell \<Rightarrow> bool" where
  reach_refl: "reachable a a"
| reach_step: "reachable a b \<Longrightarrow> d \<in> set DIRS \<Longrightarrow> c = (fst b + fst d, snd b + snd d)
     \<Longrightarrow> enterable c \<Longrightarrow> reachable a c"

code_pred reachable .

section \<open>Notions used to state the collision theorems\<close>

text \<open>
  For a list \<open>hits\<close> of colliding ghosts in roster order: the hits met before the first
  normal ghost, the vulnerable ones among them, and whether a normal ghost is hit at
  all.
\<close>

definition before_normal :: "Ghost list \<Rightarrow> nat list \<Rightarrow> nat list" where
  "before_normal gs hits = takeWhile (\<lambda>i. mode (gs ! i) \<noteq> Normal) hits"

definition captured :: "Ghost list \<Rightarrow> nat list \<Rightarrow> nat list" where
  "captured gs hits = filter (\<lambda>i. mode (gs ! i) = Vulnerable) (before_normal gs hits)"

definition normal_hit :: "Ghost list \<Rightarrow> nat list \<Rightarrow> bool" where
  "normal_hit gs hits = list_ex (\<lambda>i. mode (gs ! i) = Normal) hits"

text \<open>The state after the player's part of a frame (lines 537 to 544).\<close>

definition player_phase :: "real \<Rightarrow> game \<Rightarrow> game" where
  "player_phase dt s = eat_and_broadcast (s\<lparr>pacman := Pacman_update dt (pacman s)\<rparr>)"

text \<open>The state in which the collisions of a frame are resolved.\<close>

definition before_collisions :: "real \<Rightarrow> (nat \<Rightarrow> nat) \<Rightarrow> game \<Rightarrow> error + game" where
  "before_collisions dt rnd s =
     (case update_ghosts dt (pacman (player_phase dt s)) rnd 0 (ghosts (player_phase dt s)) of
        Inl e \<Rightarrow> Inl e
      | Inr gs \<Rightarrow>
          Inr ((player_phase dt s)\<lparr>ghosts := end_power (pacman (player_phase dt s)) gs\<rparr>))"

text \<open>Whether the player loses a life in the collisions of state \<open>s\<close>.\<close>

definition loses_life :: "game \<Rightarrow> bool" where
  "loses_life s = normal_hit (ghosts s) (check_collisions (pacman s) (ghosts s))"

section \<open>Sample states\<close>

text \<open>
  A player created at the start cell and a ghost created on the Door tile \<open>(12, 6)\<close>
  (its spawn and its home cell), each standing at the centre of cell \<open>(c, r)\<close>.
\<close>

definition player_at :: "int \<Rightarrow> int \<Rightarrow> real \<Rightarrow> Pacman" where
  "player_at c r t = center_in_cell ((new_Pacman 14 29)\<lparr>col := c, row := r, power_timer := t\<rparr>)"

definition ghost_at :: "int \<Rightarrow> int \<Rightarrow> mode \<Rightarrow> Ghost" where
  "ghost_at c r m = center_in_cell ((new_Ghost 12 6 12 6 Chase)\<lparr>col := c, row := r, mode := m\<rparr>)"

definition sample :: "Pacman \<Rightarrow> cell fset \<Rightarrow> cell fset \<Rightarrow> Ghost list \<Rightarrow> game" where
  "sample p ds pw gs =
     \<lparr>pacman = p, dots = ds, power = pw, ghosts = gs, game_over = False, win = False\<rparr>"

text \<open>No random draw is needed by a roster of chasing ghosts.\<close>

definition no_draws :: "nat \<Rightarrow> nat" where
  "no_draws i = 0"

text \<open>
  The player stands on an empty cell with three seconds of power left; on a power
  pickup with three seconds left; on the last standard pickup; next to a normal ghost
  with one life left; and in a game already won.
\<close>

definition frame_decay :: game where
  "frame_decay = sample (player_at 5 27 3) {|(1, 29)|} {||} [ghost_at 12 6 Normal]"

definition frame_power :: game where
  "frame_power = sample (player_at 5 26 3) {|(1, 29)|} {|(5, 26)|} [ghost_at 12 6 Normal]"

definition frame_last_dot :: game where
  "frame_last_dot = sample (player_at 5 27 0) {|(5, 27)|} {||} [ghost_at 12 6 Normal]"

definition frame_last_life :: game where
  "frame_last_life =
     sample ((player_at 5 27 0)\<lparr>lives := 1\<rparr>) {|(1, 29)|} {||} [ghost_at 5 27 Normal]"

definition frame_won :: game where
  "frame_won = (sample (player_at 5 27 0) {||} {||} [ghost_at 12 6 Normal])\<lparr>win := True\<rparr>"

text \<open>
  The player overlaps a normal and a vulnerable ghost at once (in both roster orders);
  it overlaps a vulnerable ghost only; it overlaps a normal ghost while another ghost,
  far from its home cell, is in Eyes mode.
\<close>

definition frame_mixed :: game where
  "frame_mixed =
     sample (player_at 5 27 3) {|(1, 29)|} {||} [ghost_at 5 27 Normal, ghost_at 5 27 Vulnerable]"

definition frame_mixed_rev :: game where
  "frame_mixed_rev =
     sample (player_at 5 27 3) {|(1, 29)|} {||} [ghost_at 5 27 Vulnerable, ghost_at 5 27 Normal]"

definition frame_capture :: game where
  "frame_capture =
     sample (player_at 5 27 3) {|(1, 29)|} {||} [ghost_at 5 27 Vulnerable, ghost_at 20 27 Normal]"

definition frame_eyes :: game where
  "frame_eyes =
     sample (player_at 5 27 0) {|(1, 29)|} {||} [ghost_at 5 27 Normal, ghost_at 20 27 Eyes]"

text \<open>A ghost in Eyes mode stands on its home cell; nothing collides.\<close>

definition frame_home :: game where
  "frame_home = sample (player_at 5 27 0) {|(1, 29)|} {||} [ghost_at 12 6 Eyes]"

text \<open>
  The player, away from its start cell, overlaps a normal ghost while a second normal
  ghost is elsewhere; the player stands on a standard pickup with three seconds of
  power left while a ghost is back in Normal mode; a ghost moves left along the
  corridor of row 5, with open cells on both sides and walls above and below.
\<close>

definition frame_loss :: game where
  "frame_loss =
     sample (player_at 5 27 0) {|(1, 29)|} {||} [ghost_at 5 27 Normal, ghost_at 20 27 Normal]"

definition frame_dot :: game where
  "frame_dot = sample (player_at 5 27 3) {|(5, 27), (1, 29)|} {||} [ghost_at 12 6 Normal]"

definition ghost_moving_left :: Ghost where
  "ghost_moving_left = (ghost_at 5 5 Normal)\<lparr>dir := (- 1, 0)\<rparr>"

text \<open>Two small tables with rows of unequal length.\<close>

definition ragged_long :: "string list" where
  "ragged_long = [''12'', ''123'']"

definition ragged_short :: "string list" where
  "ragged_short = [''123'', ''12'']"

text \<open>The double nearest to one tenth.\<close>

definition tenth :: real where
  "tenth = 3602879701896397 / 2 ^ 55"

section \<open>Facts about the maze table\<close>

lemma ROWS_eq: "ROWS = 31"
  by (simp add: ROWS_def MAZE_LAYOUT_def)

lemma COLS_eq: "COLS = 28"
  by (simp add: COLS_def MAZE_LAYOUT_def)

lemma TILE_SIZE_eq: "TILE_SIZE = 19"
  by (simp add: TILE_SIZE_def ROWS_eq COLS_eq SCREEN_WIDTH_def SCREEN_HEIGHT_def)

lemma OFFSET_X_eq: "OFFSET_X = 134"
  by (simp add: OFFSET_X_def MAZE_WIDTH_def TILE_SIZE_eq COLS_eq SCREEN_WIDTH_def)

lemma OFFSET_Y_eq: "OFFSET_Y = 5"
  by (simp add: OFFSET_Y_def MAZE_HEIGHT_def TILE_SIZE_eq ROWS_eq SCREEN_HEIGHT_def)

lemmas consts_eq = ROWS_eq COLS_eq TILE_SIZE_eq OFFSET_X_eq OFFSET_Y_eq

text \<open>Evaluation uses the computed values instead of recomputing them from the table.\<close>

declare ROWS_eq [code]
declare COLS_eq [code]
declare TILE_SIZE_eq [code]
declare OFFSET_X_eq [code]
declare OFFSET_Y_eq [code]

lemma maze_rows_long: "list_all (\<lambda>line. 28 \<le> length line) MAZE_LAYOUT"
  by (simp add: MAZE_LAYOUT_def)

text \<open>Inside the grid the table lookup never raises.\<close>

lemma maze_at_inside: "is_inside_grid c r \<Longrightarrow> \<exists>ch. maze_at c r = Some ch"
proof -
  assume a: "is_inside_grid c r"
  then have r: "0 \<le> r" "r < 31" and c: "0 \<le> c" "c < 28"
    by (simp_all add: is_inside_grid_def consts_eq)
  have len: "length MAZE_LAYOUT = 31" using ROWS_eq by (simp add: ROWS_def)
  from r len have "nat r < length MAZE_LAYOUT" by simp
  then have "MAZE_LAYOUT ! nat r \<in> set MAZE_LAYOUT" by simp
  with maze_rows_long have "28 \<le> length (MAZE_LAYOUT ! nat r)"
    by (simp add: list_all_iff)
  with r c len show ?thesis
    by (simp add: maze_at_def py_index_def)
qed

section \<open>How far the rounded difference is from the exact one\<close>

lemma round_half_even_close: "\<bar>real_of_int (round_half_even y) - y\<bar> \<le> 1 / 2"
proof -
  have "real_of_int \<lfloor>y\<rfloor> \<le> y" "y < real_of_int \<lfloor>y\<rfloor> + 1" by linarith+
  then show ?thesis by (auto simp add: round_half_even_def)
qed

lemma binade_bounds:
  "2 powi (- int n) \<le> a \<Longrightarrow> a < 2 powi (int n + 1) \<Longrightarrow>
     2 powi (binade n a) \<le> a \<and> a < 2 powi (binade n a + 1)"
proof (induction n arbitrary: a)
  case 0
  then show ?case by simp
next
  case (Suc n)
  show ?case
  proof (cases "a < 1")
    case True
    have l: "2 powi (- int n) \<le> 2 * a"
    proof -
      have "(2::real) powi (- int (Suc n) + 1) = 2 * 2 powi (- int (Suc n))"
        by (rule power_int_add_1') simp
      moreover have "- int (Suc n) + 1 = - int n" by simp
      ultimately have "(2::real) powi (- int n) = 2 * 2 powi (- int (Suc n))" by simp
      with Suc.prems(1) show ?thesis by simp
    qed
    have "(2::real) \<le> 2 powi (int n + 1)"
      by (simp add: power_int_add)
    with True have u: "2 * a < 2 powi (int n + 1)" by simp
    from Suc.IH [OF l u] have ih: "2 powi (binade n (2 * a)) \<le> 2 * a"
      "2 * a < 2 powi (binade n (2 * a) + 1)" by simp_all
    have e: "(2::real) powi (binade n (2 * a)) = 2 * 2 powi (binade n (2 * a) - 1)"
      "(2::real) powi (binade n (2 * a) + 1) = 2 * 2 powi (binade n (2 * a))"
      by (simp_all add: power_int_diff power_int_add)
    from ih e True show ?thesis by simp
  next
    case False
    note f = False
    show ?thesis
    proof (cases "2 \<le> a")
      case True
      have "(0::real) < 2 powi (- int n)" by simp
      moreover have "(2::real) powi (- int n) \<le> 1"
        by (simp add: power_int_minus inverse_le_1_iff one_le_power)
      ultimately have l: "2 powi (- int n) \<le> a / 2" using True by simp
      have "(2::real) powi (int (Suc n) + 1) = 2 * 2 powi (int n + 1)"
        by (simp add: power_int_add)
      with Suc.prems(2) have u: "a / 2 < 2 powi (int n + 1)" by simp
      from Suc.IH [OF l u] have ih: "2 powi (binade n (a / 2)) \<le> a / 2"
        "a / 2 < 2 powi (binade n (a / 2) + 1)" by simp_all
      have e: "(2::real) powi (binade n (a / 2) + 1) = 2 * 2 powi (binade n (a / 2))"
        "(2::real) powi (binade n (a / 2) + 1 + 1) = 2 * 2 powi (binade n (a / 2) + 1)"
        by (simp_all add: power_int_add)
      from ih e True f show ?thesis by simp
    next
      case False
      with f show ?thesis by simp
    qed
  qed
qed

lemma double_round_close:
  assumes "2 powi (- 1022) \<le> \<bar>v\<bar>" and "\<bar>v\<bar> < 2 powi 1024"
  shows "\<bar>double_round v - v\<bar> \<le> \<bar>v\<bar> / 2 ^ 53"
proof -
  let ?b = "binade 1100 \<bar>v\<bar>"
  let ?u = "(2::real) powi (?b - 52)"
  have "(2::real) powi (- int 1100) \<le> 2 powi (- 1022)"
    by (rule power_int_increasing) simp_all
  with assms(1) have l: "2 powi (- int 1100) \<le> \<bar>v\<bar>" by simp
  have "(2::real) powi 1024 \<le> 2 powi (int 1100 + 1)"
    by (rule power_int_increasing) simp_all
  with assms(2) have u: "\<bar>v\<bar> < 2 powi (int 1100 + 1)" by simp
  from binade_bounds [OF l u] have b: "2 powi ?b \<le> \<bar>v\<bar>" "\<bar>v\<bar> < 2 powi (?b + 1)" by simp_all
  have "(2::real) powi (- 1022) < 2 powi (?b + 1)" using assms(1) b(2) by simp
  have "- 1022 < ?b + 1"
  proof (rule ccontr)
    assume "\<not> - 1022 < ?b + 1"
    then have "?b + 1 \<le> - 1022" by simp
    then have "(2::real) powi (?b + 1) \<le> 2 powi (- 1022)"
      by (rule power_int_increasing) simp
    with \<open>(2::real) powi (- 1022) < 2 powi (?b + 1)\<close> show False by simp
  qed
  then have m: "max (- 1022) ?b = ?b" by simp
  have v0: "v \<noteq> 0"
  proof
    assume "v = 0"
    with assms(1) have "(2::real) powi (- 1022) \<le> 0" by simp
    moreover have "(0::real) < 2 powi (- 1022)" by simp
    ultimately show False by simp
  qed
  have up: "0 < ?u" by simp
  have d: "double_round v = real_of_int (round_half_even (v / ?u)) * ?u"
    using v0 m by (simp add: double_round_def Let_def)
  have "\<bar>double_round v - v\<bar> = \<bar>real_of_int (round_half_even (v / ?u)) - v / ?u\<bar> * ?u"
  proof -
    have "double_round v - v = (real_of_int (round_half_even (v / ?u)) - v / ?u) * ?u"
      using up by (simp add: d field_simps)
    then show ?thesis using up by (simp add: abs_mult)
  qed
  also have "\<dots> \<le> (1 / 2) * ?u"
    using round_half_even_close [of "v / ?u"] up by (intro mult_right_mono) simp_all
  also have "(1 / 2) * ?u = 2 powi ?b / 2 ^ 53"
  proof -
    have "(2::real) powi (?b - 52) = 2 powi ?b / 2 ^ 52"
      by (simp add: power_int_diff)
    then show ?thesis by simp
  qed
  also have "\<dots> \<le> \<bar>v\<bar> / 2 ^ 53" using b(1) by (simp add: divide_right_mono)
  finally show ?thesis .
qed

section \<open>The update methods as compositions of their stages\<close>

lemma Pacman_update_stages:
  "Pacman_update dt p =
     decay dt (slide hits_wall False PACMAN_SPEED dt
       (if near_center p then snap_to (try_change_dir (col p) (row p) (target_dir p)) p else p))"
  by (simp only: Pacman_update_def decay_def slide_def near_center_def snap_to_def Let_def if_False)

lemma move_towards_stages:
  "move_towards dt tgt g =
     (case eyes_dir tgt g of
        None \<Rightarrow> Inl TypeError
      | Some d \<Rightarrow> Inr (slide hits_wall_eyes True (GHOST_SPEED + 30) dt (g\<lparr>dir := d\<rparr>)))"
  by (simp only: move_towards_def eyes_dir_def eyes_options_def slide_def Let_def if_True)

lemma Ghost_update_stages:
  "Ghost_update dt p rnd g =
     (if mode g = Eyes then
        (case move_towards dt (home g) g of
           Inl e \<Rightarrow> Inl e
         | Inr g1 \<Rightarrow> if (col g1, row g1) = home g1 then Inr (respawn g1) else Inr g1)
      else
        (case (if near_center g then choose_dir rnd p g (build_options g DIRS []) else Some (dir g)) of
           None \<Rightarrow> Inl TypeError
         | Some d \<Rightarrow>
             Inr (slide hits_wall True (speed g) dt (if near_center g then snap_to d g else g))))"
proof -
  have sp: "\<And>d. speed (if near_center g then snap_to d g else g) = speed g"
    by (simp add: speed_def snap_to_def)
  have "Ghost_update dt p rnd g =
     (if mode g = Eyes then
        (case move_towards dt (home g) g of
           Inl e \<Rightarrow> Inl e
         | Inr g1 \<Rightarrow> if (col g1, row g1) = home g1 then Inr (respawn g1) else Inr g1)
      else
        (case (if near_center g then choose_dir rnd p g (build_options g DIRS []) else Some (dir g)) of
           None \<Rightarrow> Inl TypeError
         | Some d \<Rightarrow>
             Inr (slide hits_wall True (speed (if near_center g then snap_to d g else g)) dt (if near_center g then snap_to d g else g))))"
    by (simp only: Ghost_update_def respawn_def slide_def near_center_def snap_to_def Let_def if_True)
  then show ?thesis by (simp only: sp)
qed

lemma slide_Pacman [simp]:
  "lives (slide b s v dt p) = lives p"
  "score (slide b s v dt p) = score p"
  "power_timer (slide b s v dt p) = power_timer p"
  "radius (slide b s v dt p) = radius p"
  by (simp_all add: slide_def Let_def)

lemma slide_Ghost [simp]:
  "mode (slide b s v dt g) = mode g"
  "spawn (slide b s v dt g) = spawn g"
  "home (slide b s v dt g) = home g"
  "behavior (slide b s v dt g) = behavior g"
  by (simp_all add: slide_def Let_def)

lemma Pacman_update_fields:
  "lives (Pacman_update dt p) = lives p"
  "score (Pacman_update dt p) = score p"
  "power_timer (Pacman_update dt p) =
     (if 0 < power_timer p then max 0 (double_sub (power_timer p) dt) else power_timer p)"
  by (simp_all add: Pacman_update_stages decay_def snap_to_def)

section \<open>Facts about the ghost updates and the collision loop\<close>

lemma move_towards_fields:
  "move_towards dt tgt g = Inr g1 \<Longrightarrow> mode g1 = mode g \<and> spawn g1 = spawn g \<and> home g1 = home g"
  by (auto simp add: move_towards_stages split: option.splits)

lemma respawn_fields [simp]:
  "mode (respawn g) = Normal" "spawn (respawn g) = spawn g" "home (respawn g) = home g"
  "col (respawn g) = fst (spawn g)" "row (respawn g) = snd (spawn g)"
  "xpos (respawn g) = real_of_int (fst (grid_to_world (fst (spawn g)) (snd (spawn g))))"
  "ypos (respawn g) = real_of_int (snd (grid_to_world (fst (spawn g)) (snd (spawn g))))"
  by (simp_all add: respawn_def set_normal_def center_in_cell_def)

text \<open>A ghost outside Eyes mode keeps its mode through its update.\<close>

lemma Ghost_update_not_eyes:
  "mode g \<noteq> Eyes \<Longrightarrow> Ghost_update dt p rnd g = Inr g' \<Longrightarrow>
     mode g' = mode g \<and> spawn g' = spawn g \<and> home g' = home g"
  by (auto simp add: Ghost_update_stages snap_to_def split: option.splits if_splits)

text \<open>A ghost in Eyes mode either arrives and respawns, or stays in Eyes mode.\<close>

lemma Ghost_update_eyes:
  assumes "mode g = Eyes" and "Ghost_update dt p rnd g = Inr g'"
  shows "\<exists>g1. move_towards dt (home g) g = Inr g1 \<and>
           g' = (if (col g1, row g1) = home g then respawn g1 else g1) \<and>
           mode g1 = Eyes \<and> spawn g1 = spawn g \<and> home g1 = home g"
proof -
  from assms obtain g1 where m: "move_towards dt (home g) g = Inr g1"
    by (auto simp add: Ghost_update_stages split: sum.splits)
  from move_towards_fields [OF m] assms(1)
  have f: "mode g1 = Eyes" "spawn g1 = spawn g" "home g1 = home g" by simp_all
  from assms m f have "g' = (if (col g1, row g1) = home g then respawn g1 else g1)"
    by (auto simp add: Ghost_update_stages split: if_splits)
  with m f show ?thesis by blast
qed

lemma Ghost_update_spawn_home:
  "Ghost_update dt p rnd g = Inr g' \<Longrightarrow> spawn g' = spawn g \<and> home g' = home g"
proof (cases "mode g = Eyes")
  case True
  assume u: "Ghost_update dt p rnd g = Inr g'"
  from Ghost_update_eyes [OF True u] show ?thesis by (auto split: if_splits)
next
  case False
  assume u: "Ghost_update dt p rnd g = Inr g'"
  from Ghost_update_not_eyes [OF False u] show ?thesis by simp
qed

lemma update_ghosts_nth:
  "update_ghosts dt p rnd k gs = Inr gs' \<Longrightarrow>
     length gs' = length gs \<and>
     (\<forall>i < length gs. Ghost_update dt p (rnd (k + i)) (gs ! i) = Inr (gs' ! i))"
proof (induction gs arbitrary: k gs')
  case Nil
  then show ?case by simp
next
  case (Cons g gs)
  from Cons.prems obtain g1 gs1 where
    g1: "Ghost_update dt p (rnd k) g = Inr g1" and
    gs1: "update_ghosts dt p rnd (Suc k) gs = Inr gs1" and
    eq: "gs' = g1 # gs1"
    by (auto split: sum.splits)
  from Cons.IH [OF gs1] have ih: "length gs1 = length gs"
    "\<forall>i < length gs. Ghost_update dt p (rnd (Suc k + i)) (gs ! i) = Inr (gs1 ! i)"
    by simp_all
  show ?case
  proof (intro conjI allI impI)
    show "length gs' = length (g # gs)" using eq ih by simp
  next
    fix i assume "i < length (g # gs)"
    then show "Ghost_update dt p (rnd (k + i)) ((g # gs) ! i) = Inr (gs' ! i)"
      using g1 ih eq by (cases i) simp_all
  qed
qed

lemma resolve_hits_static:
  "dots (resolve_hits hs s) = dots s \<and> power (resolve_hits hs s) = power s \<and>
   win (resolve_hits hs s) = win s \<and>
   power_timer (pacman (resolve_hits hs s)) = power_timer (pacman s) \<and>
   length (ghosts (resolve_hits hs s)) = length (ghosts s)"
  by (induction hs arbitrary: s)
     (simp_all add: Let_def reset_positions_def center_in_cell_def)

lemma nth_update_other:
  "i \<notin> set hs \<Longrightarrow> j \<in> set hs \<Longrightarrow> gs[i := g] ! j = gs ! j"
  by (rule nth_list_update_neq) auto

lemma before_normal_subset: "j \<in> set (before_normal gs hs) \<Longrightarrow> j \<in> set hs"
  unfolding before_normal_def by (rule set_takeWhileD [THEN conjunct1])

lemma captured_subset: "j \<in> set (captured gs hs) \<Longrightarrow> j \<in> set hs"
  unfolding captured_def using before_normal_subset by auto

lemma before_normal_update:
  "i \<notin> set hs \<Longrightarrow> before_normal (gs[i := g]) hs = before_normal gs hs"
  unfolding before_normal_def
  by (rule takeWhile_cong) (simp_all add: nth_update_other)

lemma captured_update:
  "i \<notin> set hs \<Longrightarrow> captured (gs[i := g]) hs = captured gs hs"
proof -
  assume a: "i \<notin> set hs"
  have "filter (\<lambda>j. mode (gs[i := g] ! j) = Vulnerable) (before_normal gs hs) =
        filter (\<lambda>j. mode (gs ! j) = Vulnerable) (before_normal gs hs)"
    using a by (intro filter_cong) (simp_all add: nth_update_other before_normal_subset)
  with a show ?thesis by (simp add: captured_def before_normal_update)
qed

lemma normal_hit_update:
  "i \<notin> set hs \<Longrightarrow> normal_hit (gs[i := g]) hs = normal_hit gs hs"
  by (auto simp add: normal_hit_def list_ex_iff nth_update_other)

lemma before_normal_Cons:
  "before_normal gs (i # hs) = (if mode (gs ! i) \<noteq> Normal then i # before_normal gs hs else [])"
  by (simp add: before_normal_def)

lemma captured_Cons:
  "captured gs (i # hs) =
     (if mode (gs ! i) = Normal then []
      else if mode (gs ! i) = Vulnerable then i # captured gs hs else captured gs hs)"
  by (simp add: captured_def before_normal_Cons)

lemma normal_hit_Cons:
  "normal_hit gs (i # hs) \<longleftrightarrow> mode (gs ! i) = Normal \<or> normal_hit gs hs"
  by (simp add: normal_hit_def)

text \<open>What the collision loop leaves behind, for hits that name each ghost once.\<close>

lemma resolve_hits_result:
  assumes "distinct hs" and "\<forall>i \<in> set hs. i < length (ghosts s)"
  shows "resolve_hits hs s =
     (let gs1 = map (\<lambda>j. if j \<in> set (captured (ghosts s) hs) then set_eyes (ghosts s ! j)
                          else ghosts s ! j) [0..<length (ghosts s)];
          p1 = (pacman s)\<lparr>score := score (pacman s) + GHOST_SCORE * int (length (captured (ghosts s) hs))\<rparr>
      in if normal_hit (ghosts s) hs
         then s\<lparr>pacman := fst (reset_positions (p1\<lparr>lives := lives p1 - 1\<rparr>) gs1),
                ghosts := snd (reset_positions (p1\<lparr>lives := lives p1 - 1\<rparr>) gs1),
                game_over := (if lives p1 - 1 \<le> 0 then True else game_over s)\<rparr>
         else s\<lparr>ghosts := gs1, pacman := p1\<rparr>)"
  using assms
proof (induction hs arbitrary: s)
  case Nil
  have "map (\<lambda>j. ghosts s ! j) [0..<length (ghosts s)] = ghosts s"
    by (rule map_nth)
  then show ?case
    by (simp add: captured_def before_normal_def normal_hit_def)
next
  case (Cons i hs)
  from Cons.prems have d: "distinct hs" "i \<notin> set hs" and
    b: "i < length (ghosts s)" "\<forall>j \<in> set hs. j < length (ghosts s)" by simp_all
  show ?case
  proof (cases "mode (ghosts s ! i)")
    case Normal
    have "map (\<lambda>j. ghosts s ! j) [0..<length (ghosts s)] = ghosts s"
      by (rule map_nth)
    with Normal show ?thesis
      by (simp add: captured_Cons normal_hit_Cons Let_def reset_positions_def)
  next
    case Eyes
    with Cons.IH [OF d(1) b(2)] show ?thesis
      by (simp add: captured_Cons normal_hit_Cons)
  next
    case Vulnerable
    let ?s1 = "s\<lparr>ghosts := (ghosts s)[i := set_eyes (ghosts s ! i)],
             pacman := (pacman s)\<lparr>score := score (pacman s) + GHOST_SCORE\<rparr>\<rparr>"
    have b1: "\<forall>j \<in> set hs. j < length (ghosts ?s1)" using b by simp
    have c: "captured ((ghosts s)[i := set_eyes (ghosts s ! i)]) hs = captured (ghosts s) hs"
      "normal_hit ((ghosts s)[i := set_eyes (ghosts s ! i)]) hs = normal_hit (ghosts s) hs"
      using d(2) by (simp_all add: captured_update normal_hit_update)
    have ci: "i \<notin> set (captured (ghosts s) hs)"
      using d(2) captured_subset by blast
    have m: "map (\<lambda>j. if j \<in> set (captured (ghosts s) hs) then set_eyes (ghosts ?s1 ! j)
                          else ghosts ?s1 ! j) [0..<length (ghosts s)]
        = map (\<lambda>j. if j = i \<or> j \<in> set (captured (ghosts s) hs) then set_eyes (ghosts s ! j)
                          else ghosts s ! j) [0..<length (ghosts s)]"
      using ci b(1) by (intro map_cong) (auto simp add: nth_list_update)
    have sc: "score (pacman s) + GHOST_SCORE + GHOST_SCORE * int (length (captured (ghosts s) hs))
        = score (pacman s) + GHOST_SCORE * (1 + int (length (captured (ghosts s) hs)))"
      by (simp add: algebra_simps)
    have e1: "resolve_hits (i # hs) s = resolve_hits hs ?s1" using Vulnerable by simp
    show ?thesis
      unfolding e1 Cons.IH [OF d(1) b1] using Vulnerable
      by (simp add: captured_Cons normal_hit_Cons Let_def c m sc)
  qed
qed

section \<open>Facts about the phases of a frame\<close>

lemma check_collisions_distinct:
  "distinct (check_collisions p gs) \<and> (\<forall>i \<in> set (check_collisions p gs). i < length gs)"
  by (simp add: check_collisions_def)

lemma collisions_result:
  "collisions s =
     (let hs = check_collisions (pacman s) (ghosts s);
          gs1 = map (\<lambda>j. if j \<in> set (captured (ghosts s) hs) then set_eyes (ghosts s ! j)
                          else ghosts s ! j) [0..<length (ghosts s)];
          p1 = (pacman s)\<lparr>score := score (pacman s) + GHOST_SCORE * int (length (captured (ghosts s) hs))\<rparr>
      in if loses_life s
         then s\<lparr>pacman := fst (reset_positions (p1\<lparr>lives := lives p1 - 1\<rparr>) gs1),
                ghosts := snd (reset_positions (p1\<lparr>lives := lives p1 - 1\<rparr>) gs1),
                game_over := (if lives p1 - 1 \<le> 0 then True else game_over s)\<rparr>
         else s\<lparr>ghosts := gs1, pacman := p1\<rparr>)"
  using resolve_hits_result [of "check_collisions (pacman s) (ghosts s)" s] check_collisions_distinct
  by (simp add: collisions_def loses_life_def Let_def)

lemma collisions_player:
  "lives (pacman (collisions s)) = (if loses_life s then lives (pacman s) - 1 else lives (pacman s))"
  "game_over (collisions s) = (if loses_life s then lives (pacman s) - 1 \<le> 0 \<or> game_over s else game_over s)"
  "score (pacman (collisions s)) =
     score (pacman s) + GHOST_SCORE * int (length (captured (ghosts s) (check_collisions (pacman s) (ghosts s))))"
  "power_timer (pacman (collisions s)) = power_timer (pacman s)"
  "dots (collisions s) = dots s" "power (collisions s) = power s" "win (collisions s) = win s"
  "length (ghosts (collisions s)) = length (ghosts s)"
  by (simp_all add: collisions_result Let_def reset_positions_def center_in_cell_def)

lemma handle_pacman_eats_fields:
  "lives (fst (snd (handle_pacman_eats p ds pw))) = lives p"
  "power_timer (fst (snd (handle_pacman_eats p ds pw))) =
     (if (col p, row p) |\<in>| pw then POWER_DURATION else power_timer p)"
  "col (fst (snd (handle_pacman_eats p ds pw))) = col p"
  "row (fst (snd (handle_pacman_eats p ds pw))) = row p"
  by (simp_all add: handle_pacman_eats_def Let_def)

lemma eat_and_broadcast_fields:
  "lives (pacman (eat_and_broadcast s)) = lives (pacman s)"
  "power_timer (pacman (eat_and_broadcast s)) =
     (if (col (pacman s), row (pacman s)) |\<in>| power s then POWER_DURATION else power_timer (pacman s))"
  "game_over (eat_and_broadcast s) = game_over s"
  "win (eat_and_broadcast s) = win s"
  "length (ghosts (eat_and_broadcast s)) = length (ghosts s)"
  by (simp_all add: eat_and_broadcast_def handle_pacman_eats_def Let_def)

lemma player_phase_fields:
  "lives (pacman (player_phase dt s)) = lives (pacman s)"
  "power_timer (pacman (player_phase dt s)) =
     (if (col (Pacman_update dt (pacman s)), row (Pacman_update dt (pacman s))) |\<in>| power s
      then POWER_DURATION
      else if 0 < power_timer (pacman s) then max 0 (double_sub (power_timer (pacman s)) dt)
      else power_timer (pacman s))"
  "game_over (player_phase dt s) = game_over s"
  "win (player_phase dt s) = win s"
  "length (ghosts (player_phase dt s)) = length (ghosts s)"
  by (simp_all add: player_phase_def eat_and_broadcast_fields Pacman_update_fields)

lemma tick_unfold:
  "tick dt rnd s =
     (if game_over s \<or> win s then Inr s
      else case before_collisions dt rnd s of
             Inl e \<Rightarrow> Inl e
           | Inr s2 \<Rightarrow> Inr (check_win (collisions s2)))"
  by (simp add: tick_def before_collisions_def player_phase_def Let_def split: sum.splits)

lemma before_collisions_fields:
  assumes "before_collisions dt rnd s = Inr s2"
  shows "pacman s2 = pacman (player_phase dt s)"
    and "dots s2 = dots (player_phase dt s)" and "power s2 = power (player_phase dt s)"
    and "game_over s2 = game_over s" and "win s2 = win s"
    and "length (ghosts s2) = length (ghosts s)"
proof -
  from assms obtain gs where
    u: "update_ghosts dt (pacman (player_phase dt s)) rnd 0 (ghosts (player_phase dt s)) = Inr gs"
    and e: "s2 = (player_phase dt s)\<lparr>ghosts := end_power (pacman (player_phase dt s)) gs\<rparr>"
    by (auto simp add: before_collisions_def split: sum.splits)
  from update_ghosts_nth [OF u] have l: "length gs = length (ghosts (player_phase dt s))" by simp
  from e show "pacman s2 = pacman (player_phase dt s)" by simp
  from e show "dots s2 = dots (player_phase dt s)" by simp
  from e show "power s2 = power (player_phase dt s)" by simp
  from e show "game_over s2 = game_over s" by (simp add: player_phase_fields)
  from e show "win s2 = win s" by (simp add: player_phase_fields)
  from e l show "length (ghosts s2) = length (ghosts s)"
    by (simp add: end_power_def player_phase_fields)
qed

lemma check_win_fields:
  "pacman (check_win s) = pacman s" "ghosts (check_win s) = ghosts s"
  "dots (check_win s) = dots s" "power (check_win s) = power s"
  "game_over (check_win s) = game_over s"
  "win (check_win s) \<longleftrightarrow> win s \<or> (dots s = {||} \<and> power s = {||})"
  by (auto simp add: check_win_def)

lemma tick_result: "\<not> isl (tick dt rnd s) \<Longrightarrow> tick dt rnd s = Inr (projr (tick dt rnd s))"
  by simp

lemma run_terminal: "game_over s \<or> win s \<Longrightarrow> run frames s = Inr s"
  by (induction frames) (auto simp add: tick_unfold)

lemma captured_vulnerable: "j \<in> set (captured gs hs) \<Longrightarrow> mode (gs ! j) = Vulnerable"
  by (simp add: captured_def)

lemma captured_no_normal:
  "\<not> normal_hit gs hs \<Longrightarrow> captured gs hs = filter (\<lambda>i. mode (gs ! i) = Vulnerable) hs"
proof -
  assume "\<not> normal_hit gs hs"
  then have "before_normal gs hs = hs"
    by (simp add: normal_hit_def before_normal_def list_ex_iff takeWhile_eq_all_conv)
  then show ?thesis by (simp add: captured_def)
qed

lemma reset_ghost_fields:
  "mode (reset_ghost g) = Normal" "spawn (reset_ghost g) = spawn g" "home (reset_ghost g) = home g"
  "col (reset_ghost g) = fst (spawn g)" "row (reset_ghost g) = snd (spawn g)"
  "xpos (reset_ghost g) = real_of_int (fst (grid_to_world (fst (spawn g)) (snd (spawn g))))"
  "ypos (reset_ghost g) = real_of_int (snd (grid_to_world (fst (spawn g)) (snd (spawn g))))"
  "dir (reset_ghost g) = (0, 0)"
  by (simp_all add: reset_ghost_def set_normal_def center_in_cell_def)

lemma collisions_ghost_nth:
  assumes "j < length (ghosts s)"
  shows "ghosts (collisions s) ! j =
     (if loses_life s
      then reset_ghost (if j \<in> set (captured (ghosts s) (check_collisions (pacman s) (ghosts s)))
                        then set_eyes (ghosts s ! j) else ghosts s ! j)
      else (if j \<in> set (captured (ghosts s) (check_collisions (pacman s) (ghosts s)))
            then set_eyes (ghosts s ! j) else ghosts s ! j))"
  using assms by (simp add: collisions_result Let_def reset_positions_def)

lemma collisions_pacman_position:
  "col (pacman (collisions s)) = col (pacman s)" "row (pacman (collisions s)) = row (pacman s)"
  "loses_life s \<Longrightarrow> xpos (pacman (collisions s)) = real_of_int (fst (grid_to_world (col (pacman s)) (row (pacman s))))"
  "loses_life s \<Longrightarrow> ypos (pacman (collisions s)) = real_of_int (snd (grid_to_world (col (pacman s)) (row (pacman s))))"
  "loses_life s \<Longrightarrow> dir (pacman (collisions s)) = (0, 0) \<and> target_dir (pacman (collisions s)) = (0, 0)"
  by (simp_all add: collisions_result Let_def reset_positions_def center_in_cell_def)

lemma before_collisions_result:
  "\<not> isl (before_collisions dt rnd s) \<Longrightarrow>
     before_collisions dt rnd s = Inr (projr (before_collisions dt rnd s))"
  by simp

lemma set_vulnerable_eyes: "mode g = Eyes \<Longrightarrow> set_vulnerable g = g"
  by (simp add: set_vulnerable_def)

lemma player_phase_ghost_eyes:
  assumes "i < length (ghosts s)" and "mode (ghosts s ! i) = Eyes"
  shows "ghosts (player_phase dt s) ! i = ghosts s ! i"
  using assms
  by (simp add: player_phase_def eat_and_broadcast_def set_vulnerable_eyes split: prod.splits)

lemma end_power_nth:
  "i < length gs \<Longrightarrow> mode (gs ! i) \<noteq> Vulnerable \<Longrightarrow> end_power p gs ! i = gs ! i"
  by (simp add: end_power_def)

section \<open>The band of rows around the start cell\<close>

lemma row_24: "MAZE_LAYOUT ! 24 = replicate 28 CHR ''1''" by code_simp
lemma row_30: "MAZE_LAYOUT ! 30 = replicate 28 CHR ''1''" by code_simp

lemma wall_rows: "0 \<le> c \<Longrightarrow> c < 28 \<Longrightarrow>
   maze_at c 24 = Some CHR ''1'' \<and> maze_at c 30 = Some CHR ''1''"
proof -
  assume c: "0 \<le> c" "c < 28"
  have len: "length MAZE_LAYOUT = 31" using ROWS_eq by (simp add: ROWS_def)
  from c have n: "nat c < 28" by simp
  from len c n show ?thesis
    by (simp add: maze_at_def py_index_def row_24 row_30)
qed

lemma band_closed:
  assumes "25 \<le> snd b" and "snd b \<le> 29" and "d \<in> set DIRS"
    and "enterable (fst b + fst d, snd b + snd d)"
  shows "25 \<le> snd b + snd d \<and> snd b + snd d \<le> 29"
proof -
  from assms(3) have d: "snd d = 0 \<or> snd d = 1 \<or> snd d = - 1" by (auto simp add: DIRS_def)
  from assms(4) have i: "0 \<le> fst b + fst d" "fst b + fst d < 28"
    and w: "maze_at (fst b + fst d) (snd b + snd d) \<noteq> Some CHR ''1''"
    by (simp_all add: enterable_def is_inside_grid_def consts_eq)
  have "snd b + snd d \<noteq> 24" using w wall_rows [OF i] by auto
  moreover have "snd b + snd d \<noteq> 30" using w wall_rows [OF i] by auto
  ultimately show ?thesis using assms(1,2) d by auto
qed

lemma reachable_band:
  "reachable a b \<Longrightarrow> 25 \<le> snd a \<Longrightarrow> snd a \<le> 29 \<Longrightarrow> 25 \<le> snd b \<and> snd b \<le> 29"
proof (induction rule: reachable.induct)
  case (reach_refl a)
  then show ?case by simp
next
  case (reach_step a b d c)
  then have "25 \<le> snd b \<and> snd b \<le> 29" by simp
  with reach_step.hyps(2,3,4) band_closed [of b d] show ?case by simp
qed

lemma start_cell_eq: "start_cell = (14, 29)" by code_simp

section \<open>When loading fails\<close>

lemma py_index_nonneg:
  "0 \<le> i \<Longrightarrow> py_index xs i = (if i < int (length xs) then Some (xs ! nat i) else None)"
  by (simp add: py_index_def)

text \<open>\<open>load_dots\<close> fails exactly when one of the cells it reads does not exist.\<close>

lemma load_cells_fails_iff:
  "isl (load_cells m cs acc) \<longleftrightarrow>
     (\<exists>(r, c) \<in> set cs. case py_index m r of None \<Rightarrow> True | Some line \<Rightarrow> py_index line c = None)"
proof (induction cs arbitrary: acc)
  case Nil
  then show ?case by simp
next
  case (Cons rc cs)
  obtain r c where rc: "rc = (r, c)" by (cases rc)
  obtain ds pw where acc: "acc = (ds, pw)" by (cases acc)
  show ?case unfolding rc acc
    by (auto simp add: Cons.IH split: option.splits)
qed

lemma load_cells_error:
  "load_cells m cs acc = Inl e \<Longrightarrow> e = IndexError"
proof (induction cs arbitrary: acc)
  case Nil
  then show ?case by simp
next
  case (Cons rc cs)
  obtain r c where rc: "rc = (r, c)" by (cases rc)
  obtain ds pw where acc: "acc = (ds, pw)" by (cases acc)
  from Cons.prems Cons.IH show ?case unfolding rc acc
    by (auto split: option.splits if_splits)
qed

lemma load_dots_of_fails_iff:
  "isl (load_dots_of m) \<longleftrightarrow>
     m = [] \<or> hd m = [] \<or> (\<exists>line \<in> set m. length line < length (hd m))"
proof (cases m)
  case Nil
  then show ?thesis by (simp add: load_dots_of_def module_consts_def py_index_def)
next
  case (Cons l0 ls)
  show ?thesis
  proof (cases "l0 = []")
    case True
    with Cons show ?thesis by (simp add: load_dots_of_def module_consts_def py_index_def)
  next
    case False
    let ?R = "int (length m)" and ?C = "int (length l0)"
    have mc: "module_consts m = Inr (?R, ?C, min (SCREEN_WIDTH div ?C) (SCREEN_HEIGHT div ?R))"
      using Cons False by (simp add: module_consts_def py_index_def Let_def)
    have cell: "\<And>r c. 0 \<le> r \<Longrightarrow> r < ?R \<Longrightarrow> 0 \<le> c \<Longrightarrow>
        (case py_index m r of None \<Rightarrow> True | Some line \<Rightarrow> py_index line c = None)
          \<longleftrightarrow> int (length (m ! nat r)) \<le> c"
      by (simp add: py_index_nonneg)
    have "isl (load_dots_of m) \<longleftrightarrow>
        (\<exists>(r, c) \<in> set (List.product [0..?R - 1] [0..?C - 1]).
            case py_index m r of None \<Rightarrow> True | Some line \<Rightarrow> py_index line c = None)"
      by (simp add: load_dots_of_def mc load_cells_fails_iff)
    also have "\<dots> \<longleftrightarrow> (\<exists>line \<in> set m. length line < length l0)"
    proof
      assume "\<exists>(r, c) \<in> set (List.product [0..?R - 1] [0..?C - 1]).
            case py_index m r of None \<Rightarrow> True | Some line \<Rightarrow> py_index line c = None"
      then obtain r c where h: "0 \<le> r" "r < ?R" "0 \<le> c" "c < ?C"
        and f: "case py_index m r of None \<Rightarrow> True | Some line \<Rightarrow> py_index line c = None"
        by auto
      from f cell [OF h(1,2,3)] have "int (length (m ! nat r)) \<le> c" by simp
      with h(4) have "length (m ! nat r) < length l0" by simp
      moreover from h(1,2) have "m ! nat r \<in> set m" by simp
      ultimately show "\<exists>line \<in> set m. length line < length l0" by blast
    next
      assume "\<exists>line \<in> set m. length line < length l0"
      then obtain line where l: "line \<in> set m" "length line < length l0" by blast
      from l(1) obtain k where k: "k < length m" "m ! k = line" by (auto simp add: in_set_conv_nth)
      have r: "0 \<le> int k" "int k < ?R" and c: "0 \<le> int (length line)" "int (length line) < ?C"
        using k l(2) by simp_all
      have "int (length (m ! nat (int k))) \<le> int (length line)" using k by simp
      with cell [OF r c(1)]
      have "case py_index m (int k) of None \<Rightarrow> True
            | Some line' \<Rightarrow> py_index line' (int (length line)) = None" by simp
      moreover have "(int k, int (length line)) \<in> set (List.product [0..?R - 1] [0..?C - 1])"
        using r c by simp
      ultimately show "\<exists>(r, c) \<in> set (List.product [0..?R - 1] [0..?C - 1]).
            case py_index m r of None \<Rightarrow> True | Some line \<Rightarrow> py_index line c = None"
        by blast
    qed
    finally show ?thesis using Cons False by simp
  qed
qed

lemma load_dots_of_error:
  "load_dots_of m = Inl e \<Longrightarrow> e = IndexError \<or> e = ZeroDivisionError"
  by (auto simp add: load_dots_of_def module_consts_def Let_def
      split: option.splits sum.splits if_splits prod.splits dest: load_cells_error)

lemma module_consts_maze: "module_consts MAZE_LAYOUT = Inr (ROWS, COLS, TILE_SIZE)"
  by code_simp

lemma maze_hd_length: "length (hd MAZE_LAYOUT) = 28"
  by (simp add: MAZE_LAYOUT_def)

section \<open>The claims\<close>

text \<open>
  C10. For every rectangle, if \<open>hits_wall_eyes\<close> reports blocking then \<open>hits_wall\<close>
  reports blocking too. The two tests differ exactly by the Door tiles: \<open>hits_wall\<close>
  holds when \<open>hits_wall_eyes\<close> holds or the rectangle overlaps a Door tile, and a cell
  inside the grid blocks normal movement exactly when it is a Wall (the cells that block
  Eyes movement) or a Door.
\<close>

theorem hits_wall_eyes_subset_hits_wall:
  "(hits_wall_eyes rc \<longrightarrow> hits_wall rc) \<and>
   (hits_wall rc \<longleftrightarrow> hits_wall_eyes rc \<or> hits_door rc) \<and>
   (is_inside_grid c r \<longrightarrow> (is_wall c r \<longleftrightarrow> maze_at c r = Some CHR ''1'' \<or> is_door c r))"
proof -
  have a: "hits_wall rc \<longleftrightarrow> hits_wall_eyes rc \<or> hits_door rc"
    unfolding hits_wall_def hits_wall_eyes_def hits_door_def Let_def list_ex_iff by blast
  have b: "is_inside_grid c r \<longrightarrow> (is_wall c r \<longleftrightarrow> maze_at c r = Some CHR ''1'' \<or> is_door c r)"
    by (simp add: is_wall_def is_door_def is_inside_grid_def)
  from a b show ?thesis by blast
qed

text \<open>
  The rectangle of the corner tile hits a Wall under both tests; the rectangle of a
  ghost standing on the Door tile \<open>(12, 6)\<close> is blocked for normal movement only.
\<close>

theorem hits_wall_eyes_subset_hits_wall_witness:
  "hits_wall_eyes (Rect 134 5 19 19) \<and> hits_wall (Rect 134 5 19 19) \<and>
   \<not> hits_wall_eyes (Rect 365 122 12 12) \<and> hits_door (Rect 365 122 12 12) \<and>
   hits_wall (Rect 365 122 12 12) \<and>
   is_inside_grid 12 6 \<and> is_wall 12 6 \<and> is_door 12 6 \<and> maze_at 12 6 \<noteq> Some CHR ''1''"
proof -
  have a: "hits_wall_eyes (Rect 134 5 19 19)" by code_simp
  have b: "\<not> hits_wall_eyes (Rect 365 122 12 12)" by code_simp
  have c: "hits_door (Rect 365 122 12 12)" by code_simp
  have d: "is_inside_grid 12 6" by code_simp
  have e: "is_door 12 6" by code_simp
  have f: "maze_at 12 6 \<noteq> Some CHR ''1''" by code_simp
  from a b c d e f
    hits_wall_eyes_subset_hits_wall [of "Rect 134 5 19 19" 12 6]
    hits_wall_eyes_subset_hits_wall [of "Rect 365 122 12 12" 12 6]
  show ?thesis by simp
qed

text \<open>
  C9. The power timer is never negative: a frame that starts with a timer that is not
  negative ends with one. In a running game the timer after the frame is the fixed
  duration when the player consumed a power pickup in it (whatever time was left);
  otherwise a positive timer becomes the double-precision difference of the timer and
  \<open>dt\<close>, floored at zero, and a zero timer stays zero. That difference is the exact
  one up to one part in \<open>2^53\<close>.
\<close>

theorem power_timer_floor_and_reset:
  assumes "tick dt rnd s = Inr s'" and "0 \<le> power_timer (pacman s)"
  shows "0 \<le> power_timer (pacman s') \<and>
     (\<not> game_over s \<and> \<not> win s \<longrightarrow>
        power_timer (pacman s') =
          (if (col (Pacman_update dt (pacman s)), row (Pacman_update dt (pacman s))) |\<in>| power s
           then POWER_DURATION
           else if 0 < power_timer (pacman s)
             then max 0 (double_sub (power_timer (pacman s)) dt)
           else power_timer (pacman s))) \<and>
     (2 powi (- 1022) \<le> \<bar>power_timer (pacman s) - dt\<bar> \<and>
      \<bar>power_timer (pacman s) - dt\<bar> < 2 powi 1024 \<longrightarrow>
        \<bar>double_sub (power_timer (pacman s)) dt - (power_timer (pacman s) - dt)\<bar>
          \<le> \<bar>power_timer (pacman s) - dt\<bar> / 2 ^ 53)"
proof -
  have c: "2 powi (- 1022) \<le> \<bar>power_timer (pacman s) - dt\<bar> \<and>
      \<bar>power_timer (pacman s) - dt\<bar> < 2 powi 1024 \<longrightarrow>
        \<bar>double_sub (power_timer (pacman s)) dt - (power_timer (pacman s) - dt)\<bar>
          \<le> \<bar>power_timer (pacman s) - dt\<bar> / 2 ^ 53"
    unfolding double_sub_def using double_round_close by blast
  show ?thesis
  proof (cases "game_over s \<or> win s")
    case True
    with assms c show ?thesis by (auto simp add: tick_unfold)
  next
    case False
    with assms(1) obtain s2 where b: "before_collisions dt rnd s = Inr s2"
      and e: "s' = check_win (collisions s2)"
      by (auto simp add: tick_unfold split: sum.splits)
    have "power_timer (pacman s') = power_timer (pacman (player_phase dt s))"
      using e before_collisions_fields(1) [OF b] by (simp add: check_win_fields collisions_player)
    with assms(2) False c show ?thesis
      by (simp add: player_phase_fields POWER_DURATION_def)
  qed
qed

text \<open>
  Half a second with three seconds left leaves two and a half; eight seconds leave zero;
  a power pickup consumed with three seconds left leaves seven. Subtracting a tenth of a
  second (the double nearest to it) five times from half a second leaves \<open>2^(-55)\<close>,
  as it does in the program, and not zero.
\<close>

theorem power_timer_floor_and_reset_witness:
  "0 \<le> power_timer (pacman frame_decay) \<and> \<not> isl (tick (1 / 2) no_draws frame_decay) \<and>
   0 \<le> power_timer (pacman (projr (tick (1 / 2) no_draws frame_decay))) \<and>
   power_timer (pacman (projr (tick (1 / 2) no_draws frame_decay))) = 5 / 2 \<and>
   power_timer (pacman (projr (tick 8 no_draws frame_decay))) = 0 \<and>
   \<bar>double_sub (power_timer (pacman frame_decay)) (1 / 2) - (power_timer (pacman frame_decay) - 1 / 2)\<bar>
     \<le> \<bar>power_timer (pacman frame_decay) - 1 / 2\<bar> / 2 ^ 53 \<and>
   0 \<le> power_timer (pacman frame_power) \<and> \<not> isl (tick 0 no_draws frame_power) \<and>
   power_timer (pacman (projr (tick 0 no_draws frame_power))) = POWER_DURATION \<and>
   double_sub (1 / 2) tenth = 3602879701896397 / 2 ^ 53 \<and>
   double_sub (3602879701896397 / 2 ^ 53) tenth = 1351079888211149 / 2 ^ 52 \<and>
   double_sub (1351079888211149 / 2 ^ 52) tenth = 7205759403792795 / 2 ^ 55 \<and>
   double_sub (7205759403792795 / 2 ^ 55) tenth = 1801439850948199 / 2 ^ 54 \<and>
   double_sub (1801439850948199 / 2 ^ 54) tenth = 1 / 2 ^ 55"
proof -
  have a: "0 \<le> power_timer (pacman frame_decay)" by code_simp
  have b: "\<not> isl (tick (1 / 2) no_draws frame_decay)" by code_simp
  have c: "power_timer (pacman (projr (tick (1 / 2) no_draws frame_decay))) = 5 / 2" by code_simp
  have d: "power_timer (pacman (projr (tick 8 no_draws frame_decay))) = 0" by code_simp
  have e: "0 \<le> power_timer (pacman frame_power)" by code_simp
  have f: "\<not> isl (tick 0 no_draws frame_power)" by code_simp
  have g: "(col (Pacman_update 0 (pacman frame_power)), row (Pacman_update 0 (pacman frame_power)))
             |\<in>| power frame_power" by code_simp
  have h: "\<not> game_over frame_power \<and> \<not> win frame_power" by code_simp
  have t: "power_timer (pacman frame_decay) = 3" by code_simp
  have r: "(2::real) powi (- 1022) \<le> \<bar>3 - 1 / 2\<bar> \<and> \<bar>3 - 1 / 2 :: real\<bar> < 2 powi 1024"
    by simp
  note A = power_timer_floor_and_reset [OF tick_result [OF b] a]
  from A have i: "0 \<le> power_timer (pacman (projr (tick (1 / 2) no_draws frame_decay)))"
    by (rule conjunct1)
  from A r have j: "\<bar>double_sub (power_timer (pacman frame_decay)) (1 / 2) -
      (power_timer (pacman frame_decay) - 1 / 2)\<bar>
     \<le> \<bar>power_timer (pacman frame_decay) - 1 / 2\<bar> / 2 ^ 53"
    unfolding t by blast
  from power_timer_floor_and_reset [OF tick_result [OF f] e] g h
  have k: "power_timer (pacman (projr (tick 0 no_draws frame_power))) = POWER_DURATION"
    by (simp only: if_True simp_thms)
  have s1: "double_sub (1 / 2) tenth = 3602879701896397 / 2 ^ 53" by code_simp
  have s2: "double_sub (3602879701896397 / 2 ^ 53) tenth = 1351079888211149 / 2 ^ 52" by code_simp
  have s3: "double_sub (1351079888211149 / 2 ^ 52) tenth = 7205759403792795 / 2 ^ 55" by code_simp
  have s4: "double_sub (7205759403792795 / 2 ^ 55) tenth = 1801439850948199 / 2 ^ 54" by code_simp
  have s5: "double_sub (1801439850948199 / 2 ^ 54) tenth = 1 / 2 ^ 55" by code_simp
  from a b c d e f i j k s1 s2 s3 s4 s5 show ?thesis by blast
qed

text \<open>
  C8. A running frame ends in the Win state exactly when it leaves both pickup sets
  empty, and in Game Over exactly when it took a life and none is left. Once either
  state holds, a frame changes nothing at all, however many frames follow.
\<close>

theorem terminal_states_freeze:
  "(game_over s \<or> win s \<longrightarrow> tick dt rnd s = Inr s \<and> run frames s = Inr s) \<and>
   (\<not> game_over s \<and> \<not> win s \<and> tick dt rnd s = Inr s' \<longrightarrow>
      (win s' \<longleftrightarrow> dots s' = {||} \<and> power s' = {||}) \<and>
      (game_over s' \<longleftrightarrow> lives (pacman s') < lives (pacman s) \<and> lives (pacman s') \<le> 0) \<and>
      (0 < lives (pacman s) \<longrightarrow> (game_over s' \<longleftrightarrow> lives (pacman s') = 0)))"
proof (intro conjI impI)
  assume "game_over s \<or> win s"
  then show "tick dt rnd s = Inr s" by (auto simp add: tick_unfold)
next
  assume "game_over s \<or> win s"
  then show "run frames s = Inr s" by (rule run_terminal)
next
  assume a: "\<not> game_over s \<and> \<not> win s \<and> tick dt rnd s = Inr s'"
  then obtain s2 where b: "before_collisions dt rnd s = Inr s2"
    and e: "s' = check_win (collisions s2)"
    by (auto simp add: tick_unfold split: sum.splits)
  note f = before_collisions_fields [OF b]
  have l2: "lives (pacman s2) = lives (pacman s)" using f(1) by (simp add: player_phase_fields)
  have w: "win s' \<longleftrightarrow> dots s' = {||} \<and> power s' = {||}"
    using e a f(5) by (simp add: check_win_fields collisions_player)
  have l: "lives (pacman s') = (if loses_life s2 then lives (pacman s) - 1 else lives (pacman s))"
    using e l2 by (simp add: check_win_fields collisions_player)
  have g: "game_over s' \<longleftrightarrow> loses_life s2 \<and> lives (pacman s) - 1 \<le> 0"
    using e a f(4) l2 by (simp add: check_win_fields collisions_player)
  from w show "win s' \<longleftrightarrow> dots s' = {||} \<and> power s' = {||}" .
  from l g show "game_over s' \<longleftrightarrow> lives (pacman s') < lives (pacman s) \<and> lives (pacman s') \<le> 0"
    by auto
  assume "0 < lives (pacman s)"
  with l g show "game_over s' \<longleftrightarrow> lives (pacman s') = 0" by auto
qed

text \<open>
  A game already won stays as it is through one frame and through three; eating the
  last pickup wins; losing the last life ends the game.
\<close>

theorem terminal_states_freeze_witness:
  "(game_over frame_won \<or> win frame_won) \<and>
   tick (1 / 2) no_draws frame_won = Inr frame_won \<and>
   run [(1 / 2, no_draws), (1 / 4, no_draws), (1, no_draws)] frame_won = Inr frame_won \<and>
   \<not> game_over frame_last_dot \<and> \<not> win frame_last_dot \<and>
   \<not> isl (tick 0 no_draws frame_last_dot) \<and>
   dots (projr (tick 0 no_draws frame_last_dot)) = {||} \<and>
   win (projr (tick 0 no_draws frame_last_dot)) \<and>
   \<not> game_over frame_last_life \<and> \<not> win frame_last_life \<and>
   \<not> isl (tick 0 no_draws frame_last_life) \<and>
   lives (pacman (projr (tick 0 no_draws frame_last_life))) = 0 \<and>
   game_over (projr (tick 0 no_draws frame_last_life))"
proof -
  have a: "game_over frame_won \<or> win frame_won" by code_simp
  have b1: "\<not> game_over frame_last_dot" by code_simp
  have b2: "\<not> win frame_last_dot" by code_simp
  have c: "\<not> isl (tick 0 no_draws frame_last_dot)" by code_simp
  have d: "dots (projr (tick 0 no_draws frame_last_dot)) = {||}" by code_simp
  have e: "power (projr (tick 0 no_draws frame_last_dot)) = {||}" by code_simp
  have f1: "\<not> game_over frame_last_life" by code_simp
  have f2: "\<not> win frame_last_life" by code_simp
  have g: "\<not> isl (tick 0 no_draws frame_last_life)" by code_simp
  have h: "lives (pacman (projr (tick 0 no_draws frame_last_life))) = 0" by code_simp
  have i: "0 < lives (pacman frame_last_life)" by code_simp
  from a terminal_states_freeze [of frame_won "1 / 2" no_draws
      "[(1 / 2, no_draws), (1 / 4, no_draws), (1, no_draws)]"]
  have j: "tick (1 / 2) no_draws frame_won = Inr frame_won"
    "run [(1 / 2, no_draws), (1 / 4, no_draws), (1, no_draws)] frame_won = Inr frame_won"
    by blast+
  from terminal_states_freeze [of frame_last_dot 0 no_draws "[]"
      "projr (tick 0 no_draws frame_last_dot)", THEN conjunct2, rule_format,
      OF conjI [OF b1 conjI [OF b2 tick_result [OF c]]]] d e
  have k: "win (projr (tick 0 no_draws frame_last_dot))" by blast
  from terminal_states_freeze [of frame_last_life 0 no_draws "[]"
      "projr (tick 0 no_draws frame_last_life)", THEN conjunct2, rule_format,
      OF conjI [OF f1 conjI [OF f2 tick_result [OF g]]]] h i
  have l: "game_over (projr (tick 0 no_draws frame_last_life))" by blast
  from a b1 b2 c d f1 f2 g h j k l show ?thesis by blast
qed

text \<open>
  C6, as the code has it. In the collisions of a frame the hits are handled in roster
  order up to the first normal ghost. Every vulnerable ghost handled adds exactly
  \<open>GHOST_SCORE\<close> to the score. When no colliding ghost is normal, lives are
  unchanged, the ghosts captured are all the vulnerable ghosts that collide, and each of
  them ends the frame in Eyes mode. When a colliding ghost is normal, exactly one life is
  lost, that collision adds nothing to the score, and every ghost ends the frame in
  Normal mode.
\<close>

theorem collision_outcomes:
  assumes "\<not> game_over s" and "\<not> win s"
    and "before_collisions dt rnd s = Inr s2" and "tick dt rnd s = Inr s'"
  shows "score (pacman s') =
       score (pacman s2) +
       GHOST_SCORE * int (length (captured (ghosts s2) (check_collisions (pacman s2) (ghosts s2)))) \<and>
     (\<not> loses_life s2 \<longrightarrow>
        lives (pacman s') = lives (pacman s) \<and>
        captured (ghosts s2) (check_collisions (pacman s2) (ghosts s2)) =
          filter (\<lambda>i. mode (ghosts s2 ! i) = Vulnerable) (check_collisions (pacman s2) (ghosts s2)) \<and>
        (\<forall>i \<in> set (check_collisions (pacman s2) (ghosts s2)).
           mode (ghosts s2 ! i) = Vulnerable \<longrightarrow> mode (ghosts s' ! i) = Eyes)) \<and>
     (loses_life s2 \<longrightarrow>
        lives (pacman s') = lives (pacman s) - 1 \<and>
        (\<forall>i < length (ghosts s'). mode (ghosts s' ! i) = Normal))"
proof -
  let ?hs = "check_collisions (pacman s2) (ghosts s2)"
  from assms have e: "s' = check_win (collisions s2)"
    by (simp add: tick_unfold)
  note f = before_collisions_fields [OF assms(3)]
  have l2: "lives (pacman s2) = lives (pacman s)" using f(1) by (simp add: player_phase_fields)
  have sc: "score (pacman s') = score (pacman s2) + GHOST_SCORE * int (length (captured (ghosts s2) ?hs))"
    using e by (simp add: check_win_fields collisions_player)
  have lv: "lives (pacman s') = (if loses_life s2 then lives (pacman s) - 1 else lives (pacman s))"
    using e l2 by (simp add: check_win_fields collisions_player)
  have gl: "length (ghosts s') = length (ghosts s2)"
    using e by (simp add: check_win_fields collisions_player)
  have g: "\<And>j. j < length (ghosts s2) \<Longrightarrow> ghosts s' ! j = ghosts (collisions s2) ! j"
    using e by (simp add: check_win_fields)
  have a: "\<not> loses_life s2 \<longrightarrow> captured (ghosts s2) ?hs = filter (\<lambda>i. mode (ghosts s2 ! i) = Vulnerable) ?hs"
    by (simp add: loses_life_def captured_no_normal)
  have b: "\<not> loses_life s2 \<longrightarrow> (\<forall>i \<in> set ?hs. mode (ghosts s2 ! i) = Vulnerable \<longrightarrow> mode (ghosts s' ! i) = Eyes)"
  proof (intro impI ballI)
    fix i assume n: "\<not> loses_life s2" and i: "i \<in> set ?hs" and v: "mode (ghosts s2 ! i) = Vulnerable"
    from i have il: "i < length (ghosts s2)" using check_collisions_distinct by blast
    from n a i v have "i \<in> set (captured (ghosts s2) ?hs)" by simp
    with n il show "mode (ghosts s' ! i) = Eyes"
      by (simp add: g collisions_ghost_nth set_eyes_def)
  qed
  have c: "loses_life s2 \<longrightarrow> (\<forall>i < length (ghosts s'). mode (ghosts s' ! i) = Normal)"
    using gl by (simp add: g collisions_ghost_nth reset_ghost_fields)
  from sc lv a b c show ?thesis by simp
qed

text \<open>
  C6 as stated fails: the player overlaps a normal ghost (first in the roster) and a
  vulnerable ghost in the same frame; the loop stops at the normal ghost, so the
  vulnerable ghost does not go to Eyes mode and the score does not change.
\<close>

theorem vulnerable_collision_not_captured:
  "\<not> game_over frame_mixed \<and> \<not> win frame_mixed \<and>
   \<not> isl (tick 0 no_draws frame_mixed) \<and> \<not> isl (before_collisions 0 no_draws frame_mixed) \<and>
   check_collisions (pacman (projr (before_collisions 0 no_draws frame_mixed)))
     (ghosts (projr (before_collisions 0 no_draws frame_mixed))) = [0, 1] \<and>
   mode (ghosts (projr (before_collisions 0 no_draws frame_mixed)) ! 1) = Vulnerable \<and>
   mode (ghosts (projr (tick 0 no_draws frame_mixed)) ! 1) \<noteq> Eyes \<and>
   score (pacman (projr (tick 0 no_draws frame_mixed))) = score (pacman frame_mixed)"
  by code_simp

text \<open>
  A vulnerable ghost alone is captured: Eyes mode, \<open>GHOST_SCORE\<close> more, no life lost.
  With a normal ghost after it in the roster a life is lost and the captured ghost ends
  the frame in Normal mode.
\<close>

theorem collision_outcomes_witness:
  "\<not> game_over frame_capture \<and> \<not> win frame_capture \<and>
   \<not> isl (before_collisions 0 no_draws frame_capture) \<and> \<not> isl (tick 0 no_draws frame_capture) \<and>
   \<not> loses_life (projr (before_collisions 0 no_draws frame_capture)) \<and>
   check_collisions (pacman (projr (before_collisions 0 no_draws frame_capture)))
     (ghosts (projr (before_collisions 0 no_draws frame_capture))) = [0] \<and>
   mode (ghosts (projr (before_collisions 0 no_draws frame_capture)) ! 0) = Vulnerable \<and>
   mode (ghosts (projr (tick 0 no_draws frame_capture)) ! 0) = Eyes \<and>
   lives (pacman (projr (tick 0 no_draws frame_capture))) = lives (pacman frame_capture) \<and>
   score (pacman (projr (tick 0 no_draws frame_capture))) = score (pacman frame_capture) + GHOST_SCORE \<and>
   \<not> game_over frame_mixed_rev \<and> \<not> win frame_mixed_rev \<and>
   \<not> isl (before_collisions 0 no_draws frame_mixed_rev) \<and> \<not> isl (tick 0 no_draws frame_mixed_rev) \<and>
   loses_life (projr (before_collisions 0 no_draws frame_mixed_rev)) \<and>
   lives (pacman (projr (tick 0 no_draws frame_mixed_rev))) = lives (pacman frame_mixed_rev) - 1 \<and>
   mode (ghosts (projr (tick 0 no_draws frame_mixed_rev)) ! 0) = Normal"
proof -
  have a1: "\<not> game_over frame_capture" by code_simp
  have a2: "\<not> win frame_capture" by code_simp
  have a3: "\<not> isl (before_collisions 0 no_draws frame_capture)" by code_simp
  have a4: "\<not> isl (tick 0 no_draws frame_capture)" by code_simp
  have a5: "\<not> loses_life (projr (before_collisions 0 no_draws frame_capture))" by code_simp
  have a6: "check_collisions (pacman (projr (before_collisions 0 no_draws frame_capture)))
     (ghosts (projr (before_collisions 0 no_draws frame_capture))) = [0]" by code_simp
  have a7: "mode (ghosts (projr (before_collisions 0 no_draws frame_capture)) ! 0) = Vulnerable"
    by code_simp
  have a8: "score (pacman (projr (before_collisions 0 no_draws frame_capture))) = score (pacman frame_capture)"
    by code_simp
  note A = collision_outcomes [OF a1 a2 before_collisions_result [OF a3] tick_result [OF a4]]
  from A a5 a6 a7 have a9: "mode (ghosts (projr (tick 0 no_draws frame_capture)) ! 0) = Eyes"
    by simp
  from A a5 have a10: "lives (pacman (projr (tick 0 no_draws frame_capture))) = lives (pacman frame_capture)"
    by blast
  from A a5 a6 a7 a8
  have a11: "score (pacman (projr (tick 0 no_draws frame_capture))) = score (pacman frame_capture) + GHOST_SCORE"
    by simp
  have b1: "\<not> game_over frame_mixed_rev" by code_simp
  have b2: "\<not> win frame_mixed_rev" by code_simp
  have b3: "\<not> isl (before_collisions 0 no_draws frame_mixed_rev)" by code_simp
  have b4: "\<not> isl (tick 0 no_draws frame_mixed_rev)" by code_simp
  have b5: "loses_life (projr (before_collisions 0 no_draws frame_mixed_rev))" by code_simp
  have b6: "0 < length (ghosts (projr (tick 0 no_draws frame_mixed_rev)))" by code_simp
  note B = collision_outcomes [OF b1 b2 before_collisions_result [OF b3] tick_result [OF b4]]
  from B b5 have b7: "lives (pacman (projr (tick 0 no_draws frame_mixed_rev))) = lives (pacman frame_mixed_rev) - 1"
    by blast
  from B b5 b6 have b8: "mode (ghosts (projr (tick 0 no_draws frame_mixed_rev)) ! 0) = Normal"
    by blast
  from a1 a2 a3 a4 a5 a6 a7 a9 a10 a11 b1 b2 b3 b4 b5 b7 b8 show ?thesis by blast
qed

text \<open>
  C7, as the code has it. A ghost that starts a frame of a running game in Eyes mode
  makes its Eyes move, and it ends the frame in Normal mode exactly when its cell after
  that move equals its home cell or the player loses a life in the frame (the reset of
  all positions). Otherwise it ends the frame in Eyes mode, as its move left it. Whenever
  it ends the frame in Normal mode it stands on its spawn cell, at the centre of it.
\<close>

theorem eyes_to_normal:
  assumes "\<not> game_over s" and "\<not> win s"
    and "i < length (ghosts s)" and "mode (ghosts s ! i) = Eyes"
    and "before_collisions dt rnd s = Inr s2" and "tick dt rnd s = Inr s'"
  shows "\<exists>g1. move_towards dt (home (ghosts s ! i)) (ghosts s ! i) = Inr g1 \<and>
     (mode (ghosts s' ! i) = Normal \<longleftrightarrow>
        (col g1, row g1) = home (ghosts s ! i) \<or> loses_life s2) \<and>
     (mode (ghosts s' ! i) \<noteq> Normal \<longrightarrow> ghosts s' ! i = g1 \<and> mode g1 = Eyes) \<and>
     (mode (ghosts s' ! i) = Normal \<longrightarrow>
        (col (ghosts s' ! i), row (ghosts s' ! i)) = spawn (ghosts s ! i) \<and>
        (xpos (ghosts s' ! i), ypos (ghosts s' ! i)) =
          (real_of_int (fst (grid_to_world (fst (spawn (ghosts s ! i))) (snd (spawn (ghosts s ! i))))),
           real_of_int (snd (grid_to_world (fst (spawn (ghosts s ! i))) (snd (spawn (ghosts s ! i)))))))"
proof -
  let ?g = "ghosts s ! i"
  let ?s1 = "player_phase dt s"
  let ?hs = "check_collisions (pacman s2) (ghosts s2)"
  from assms(5) obtain gs where
    u: "update_ghosts dt (pacman ?s1) rnd 0 (ghosts ?s1) = Inr gs"
    and e2: "s2 = ?s1\<lparr>ghosts := end_power (pacman ?s1) gs\<rparr>"
    by (auto simp add: before_collisions_def split: sum.splits)
  from assms have e: "s' = check_win (collisions s2)" by (simp add: tick_unfold)
  have l1: "length (ghosts ?s1) = length (ghosts s)" by (simp add: player_phase_fields)
  have g1i: "ghosts ?s1 ! i = ?g" using assms(3,4) by (rule player_phase_ghost_eyes)
  from update_ghosts_nth [OF u] l1 assms(3) g1i
  have lg: "length gs = length (ghosts s)"
    and ui: "Ghost_update dt (pacman ?s1) (rnd i) ?g = Inr (gs ! i)" by auto
  from Ghost_update_eyes [OF assms(4) ui] obtain g1 where
    m: "move_towards dt (home ?g) ?g = Inr g1"
    and gi: "gs ! i = (if (col g1, row g1) = home ?g then respawn g1 else g1)"
    and f1: "mode g1 = Eyes" "spawn g1 = spawn ?g" "home g1 = home ?g" by blast
  have nv: "mode (gs ! i) \<noteq> Vulnerable" using gi f1 by simp
  have s2i: "ghosts s2 ! i = gs ! i" using e2 lg assms(3) nv by (simp add: end_power_nth)
  have l2: "length (ghosts s2) = length (ghosts s)"
    using before_collisions_fields(6) [OF assms(5)] .
  have nc: "i \<notin> set (captured (ghosts s2) ?hs)"
    using nv s2i captured_vulnerable by metis
  have si: "ghosts s' ! i = (if loses_life s2 then reset_ghost (gs ! i) else gs ! i)"
    using e l2 assms(3) nc s2i by (simp add: check_win_fields collisions_ghost_nth)
  have sp: "spawn (gs ! i) = spawn ?g" using gi f1 by simp
  have md: "mode (gs ! i) = (if (col g1, row g1) = home ?g then Normal else Eyes)"
    using gi f1 by simp
  have A: "mode (ghosts s' ! i) = Normal \<longleftrightarrow> (col g1, row g1) = home ?g \<or> loses_life s2"
    using si md by (simp add: reset_ghost_fields)
  have B: "mode (ghosts s' ! i) \<noteq> Normal \<longrightarrow> ghosts s' ! i = g1 \<and> mode g1 = Eyes"
    using si gi f1 by (auto simp add: reset_ghost_fields)
  have C: "mode (ghosts s' ! i) = Normal \<longrightarrow>
        (col (ghosts s' ! i), row (ghosts s' ! i)) = spawn ?g \<and>
        (xpos (ghosts s' ! i), ypos (ghosts s' ! i)) =
          (real_of_int (fst (grid_to_world (fst (spawn ?g)) (snd (spawn ?g)))),
           real_of_int (snd (grid_to_world (fst (spawn ?g)) (snd (spawn ?g)))))"
    using si gi f1 sp by (auto simp add: reset_ghost_fields split: if_splits)
  from m A B C show ?thesis by blast
qed

text \<open>
  C7 as stated fails: a ghost in Eyes mode, far from its home cell before and after its
  move, is back in Normal mode at the end of a frame in which the player runs into
  another, normal ghost.
\<close>

theorem eyes_reset_away_from_home:
  "\<not> game_over frame_eyes \<and> \<not> win frame_eyes \<and>
   mode (ghosts frame_eyes ! 1) = Eyes \<and>
   (col (ghosts frame_eyes ! 1), row (ghosts frame_eyes ! 1)) \<noteq> home (ghosts frame_eyes ! 1) \<and>
   \<not> isl (move_towards 0 (home (ghosts frame_eyes ! 1)) (ghosts frame_eyes ! 1)) \<and>
   (col (projr (move_towards 0 (home (ghosts frame_eyes ! 1)) (ghosts frame_eyes ! 1))),
    row (projr (move_towards 0 (home (ghosts frame_eyes ! 1)) (ghosts frame_eyes ! 1))))
     \<noteq> home (ghosts frame_eyes ! 1) \<and>
   \<not> isl (tick 0 no_draws frame_eyes) \<and>
   mode (ghosts (projr (tick 0 no_draws frame_eyes)) ! 1) = Normal"
  by code_simp

text \<open>
  The ghost of the frame above ends on its spawn cell in Normal mode; a ghost in Eyes
  mode standing on its home cell turns normal without any collision.
\<close>

theorem eyes_to_normal_witness:
  "\<not> game_over frame_eyes \<and> \<not> win frame_eyes \<and> 1 < length (ghosts frame_eyes) \<and>
   mode (ghosts frame_eyes ! 1) = Eyes \<and>
   \<not> isl (before_collisions 0 no_draws frame_eyes) \<and> \<not> isl (tick 0 no_draws frame_eyes) \<and>
   loses_life (projr (before_collisions 0 no_draws frame_eyes)) \<and>
   mode (ghosts (projr (tick 0 no_draws frame_eyes)) ! 1) = Normal \<and>
   (col (ghosts (projr (tick 0 no_draws frame_eyes)) ! 1),
    row (ghosts (projr (tick 0 no_draws frame_eyes)) ! 1)) = spawn (ghosts frame_eyes ! 1) \<and>
   \<not> game_over frame_home \<and> \<not> win frame_home \<and> 0 < length (ghosts frame_home) \<and>
   mode (ghosts frame_home ! 0) = Eyes \<and>
   \<not> isl (before_collisions 0 no_draws frame_home) \<and> \<not> isl (tick 0 no_draws frame_home) \<and>
   \<not> loses_life (projr (before_collisions 0 no_draws frame_home)) \<and>
   (col (projr (move_towards 0 (home (ghosts frame_home ! 0)) (ghosts frame_home ! 0))),
    row (projr (move_towards 0 (home (ghosts frame_home ! 0)) (ghosts frame_home ! 0))))
     = home (ghosts frame_home ! 0) \<and>
   mode (ghosts (projr (tick 0 no_draws frame_home)) ! 0) = Normal"
proof -
  have a1: "\<not> game_over frame_eyes" by code_simp
  have a2: "\<not> win frame_eyes" by code_simp
  have a3: "1 < length (ghosts frame_eyes)" by code_simp
  have a4: "mode (ghosts frame_eyes ! 1) = Eyes" by code_simp
  have a5: "\<not> isl (before_collisions 0 no_draws frame_eyes)" by code_simp
  have a6: "\<not> isl (tick 0 no_draws frame_eyes)" by code_simp
  have a7: "loses_life (projr (before_collisions 0 no_draws frame_eyes))" by code_simp
  from eyes_to_normal [OF a1 a2 a3 a4 before_collisions_result [OF a5] tick_result [OF a6]] a7
  have a8: "mode (ghosts (projr (tick 0 no_draws frame_eyes)) ! 1) = Normal" by blast
  from eyes_to_normal [OF a1 a2 a3 a4 before_collisions_result [OF a5] tick_result [OF a6]] a8
  have a9: "(col (ghosts (projr (tick 0 no_draws frame_eyes)) ! 1),
    row (ghosts (projr (tick 0 no_draws frame_eyes)) ! 1)) = spawn (ghosts frame_eyes ! 1)" by blast
  have b1: "\<not> game_over frame_home" by code_simp
  have b2: "\<not> win frame_home" by code_simp
  have b3: "0 < length (ghosts frame_home)" by code_simp
  have b4: "mode (ghosts frame_home ! 0) = Eyes" by code_simp
  have b5: "\<not> isl (before_collisions 0 no_draws frame_home)" by code_simp
  have b6: "\<not> isl (tick 0 no_draws frame_home)" by code_simp
  have b7: "\<not> loses_life (projr (before_collisions 0 no_draws frame_home))" by code_simp
  have b8: "\<not> isl (move_towards 0 (home (ghosts frame_home ! 0)) (ghosts frame_home ! 0))"
    by code_simp
  have b9: "(col (projr (move_towards 0 (home (ghosts frame_home ! 0)) (ghosts frame_home ! 0))),
    row (projr (move_towards 0 (home (ghosts frame_home ! 0)) (ghosts frame_home ! 0))))
     = home (ghosts frame_home ! 0)" by code_simp
  from eyes_to_normal [OF b1 b2 b3 b4 before_collisions_result [OF b5] tick_result [OF b6]]
  obtain g1 where
    m: "move_towards 0 (home (ghosts frame_home ! 0)) (ghosts frame_home ! 0) = Inr g1" and
    n: "mode (ghosts (projr (tick 0 no_draws frame_home)) ! 0) = Normal \<longleftrightarrow>
        (col g1, row g1) = home (ghosts frame_home ! 0) \<or>
        loses_life (projr (before_collisions 0 no_draws frame_home))" by blast
  from m have "g1 = projr (move_towards 0 (home (ghosts frame_home ! 0)) (ghosts frame_home ! 0))"
    by simp
  with b9 n have b10: "mode (ghosts (projr (tick 0 no_draws frame_home)) ! 0) = Normal" by blast
  from a1 a2 a3 a4 a5 a6 a7 a8 a9 b1 b2 b3 b4 b5 b6 b7 b9 b10 show ?thesis by blast
qed

text \<open>
  C1. In a frame in which the player runs into a normal ghost it loses exactly one life,
  its direction and every ghost's direction are cleared and every ghost is put back on
  its spawn cell; but \<open>reset_positions\<close> only centres the player in the cell it
  occupies. Here the player was created at the start cell \<open>(14, 29)\<close> and stands at
  \<open>(5, 27)\<close>: after the frame it is still at \<open>(5, 27)\<close>, not at its start cell.
\<close>

theorem player_not_reset_to_start_cell:
  "start_cell = (14, 29) \<and>
   (col (pacman frame_loss), row (pacman frame_loss)) = (5, 27) \<and>
   \<not> isl (tick 0 no_draws frame_loss) \<and>
   lives (pacman (projr (tick 0 no_draws frame_loss))) = lives (pacman frame_loss) - 1 \<and>
   (col (pacman (projr (tick 0 no_draws frame_loss))),
    row (pacman (projr (tick 0 no_draws frame_loss)))) = (5, 27) \<and>
   (xpos (pacman (projr (tick 0 no_draws frame_loss))),
    ypos (pacman (projr (tick 0 no_draws frame_loss)))) =
     (real_of_int (fst (grid_to_world 5 27)), real_of_int (snd (grid_to_world 5 27))) \<and>
   (xpos (pacman (projr (tick 0 no_draws frame_loss))),
    ypos (pacman (projr (tick 0 no_draws frame_loss)))) \<noteq>
     (real_of_int (fst (grid_to_world 14 29)), real_of_int (snd (grid_to_world 14 29))) \<and>
   dir (pacman (projr (tick 0 no_draws frame_loss))) = (0, 0) \<and>
   target_dir (pacman (projr (tick 0 no_draws frame_loss))) = (0, 0) \<and>
   map (\<lambda>g. (col g, row g, dir g, mode g)) (ghosts (projr (tick 0 no_draws frame_loss))) =
     [(12, 6, (0, 0), Normal), (12, 6, (0, 0), Normal)] \<and>
   map spawn (ghosts frame_loss) = [(12, 6), (12, 6)]"
  by code_simp

text \<open>
  C2. The broadcast of \<open>set_vulnerable\<close> is guarded by "ate anything and the power timer
  is positive", not by "ate a power pickup". Here the player eats a standard pickup with
  three seconds of power left: no power pickup is consumed, and the ghost goes from
  Normal to Vulnerable.
\<close>

theorem standard_pickup_makes_vulnerable:
  "mode (ghosts frame_dot ! 0) = Normal \<and> power frame_dot = {||} \<and>
   0 < power_timer (pacman frame_dot) \<and>
   \<not> isl (tick 0 no_draws frame_dot) \<and>
   dots (projr (tick 0 no_draws frame_dot)) = {|(1, 29)|} \<and>
   power (projr (tick 0 no_draws frame_dot)) = {||} \<and>
   score (pacman (projr (tick 0 no_draws frame_dot))) = score (pacman frame_dot) + DOT_SCORE \<and>
   mode (ghosts (projr (tick 0 no_draws frame_dot)) ! 0) = Vulnerable"
  by code_simp

text \<open>
  C3. The reverse of the current direction is appended whenever no direction has been
  appended before it, and the reverse of "left" is "right", the first direction
  examined. Here a ghost moving left stands at the centre of \<open>(5, 5)\<close>; both
  horizontal neighbours are open; the candidate list keeps the reverse \<open>(1, 0)\<close>
  although the forward direction \<open>(- 1, 0)\<close> is open.
\<close>

theorem reverse_kept_beside_open_direction:
  "near_center ghost_moving_left \<and> mode ghost_moving_left = Normal \<and>
   (col ghost_moving_left, row ghost_moving_left) = (5, 5) \<and>
   dir ghost_moving_left = (- 1, 0) \<and>
   \<not> is_wall 6 5 \<and> \<not> is_wall 4 5 \<and> is_wall 5 6 \<and> is_wall 5 4 \<and>
   build_options ghost_moving_left DIRS [] = [(1, 0), (- 1, 0)]"
  by code_simp

text \<open>
  C4. The table does not have the invariant. The border cell \<open>(0, 10)\<close> is a Corridor
  (\<open>'0'\<close>), not a Wall. Rows 24 and 30 are Wall throughout, so from the player's
  start cell \<open>(14, 29)\<close> only cells of rows 25 to 29 can be reached, even when Doors
  count as open: the Corridor cell \<open>(1, 1)\<close> cannot be reached.
\<close>

theorem maze_border_open_and_disconnected:
  "on_border (0, 10) \<and> \<not> is_wall 0 10 \<and> maze_at 0 10 = Some CHR ''0'' \<and>
   start_cell = (14, 29) \<and> corridor start_cell \<and>
   corridor (1, 1) \<and> \<not> reachable start_cell (1, 1)"
proof -
  have a: "on_border (0, 10) \<and> \<not> is_wall 0 10 \<and> maze_at 0 10 = Some CHR ''0''" by code_simp
  have b: "corridor (14, 29) \<and> corridor (1, 1)" by code_simp
  have "\<not> reachable (14, 29) (1, 1)"
  proof
    assume "reachable (14, 29) (1, 1)"
    from reachable_band [OF this] show False by simp
  qed
  with a b start_cell_eq show ?thesis by simp
qed

text \<open>
  C5, as the code has it. Nothing checks the table. Loading fails exactly when the
  table is empty, its first row is empty, or some row is shorter than the first row, and
  then with a bare \<open>IndexError\<close> or \<open>ZeroDivisionError\<close>; a table whose rows differ
  in length is accepted whenever no row is shorter than the first, the characters beyond
  the length of the first row being ignored.
\<close>

theorem maze_load_unvalidated:
  "(isl (load_dots_of m) \<longleftrightarrow>
      m = [] \<or> hd m = [] \<or> (\<exists>line \<in> set m. length line < length (hd m))) \<and>
   (load_dots_of m = Inl e \<longrightarrow> e = IndexError \<or> e = ZeroDivisionError) \<and>
   (m \<noteq> [] \<and> hd m \<noteq> [] \<and> \<not> rectangular m \<and> (\<forall>line \<in> set m. length (hd m) \<le> length line)
      \<longrightarrow> \<not> isl (load_dots_of m))"
proof -
  have a: "isl (load_dots_of m) \<longleftrightarrow>
      m = [] \<or> hd m = [] \<or> (\<exists>line \<in> set m. length line < length (hd m))"
    by (rule load_dots_of_fails_iff)
  have b: "load_dots_of m = Inl e \<longrightarrow> e = IndexError \<or> e = ZeroDivisionError"
    using load_dots_of_error by blast
  from a have c: "m \<noteq> [] \<and> hd m \<noteq> [] \<and> \<not> rectangular m \<and>
      (\<forall>line \<in> set m. length (hd m) \<le> length line) \<longrightarrow> \<not> isl (load_dots_of m)"
    by (auto simp add: not_less)
  from a b c show ?thesis by blast
qed

text \<open>
  C5 as stated fails on the table of the program itself: rows 6 and 21 have 29
  characters, the others 28, and \<open>load_dots\<close> accepts it.
\<close>

theorem ragged_maze_accepted:
  "length (MAZE_LAYOUT ! 0) = 28 \<and> length (MAZE_LAYOUT ! 6) = 29 \<and>
   \<not> rectangular MAZE_LAYOUT \<and> \<not> isl load_dots"
proof -
  have a: "length (MAZE_LAYOUT ! 0) = 28 \<and> length (MAZE_LAYOUT ! 6) = 29 \<and>
    \<not> rectangular MAZE_LAYOUT" by code_simp
  have "\<forall>line \<in> set MAZE_LAYOUT. \<not> length line < length (hd MAZE_LAYOUT)"
    using maze_rows_long by (auto simp add: maze_hd_length list_all_iff)
  moreover have "MAZE_LAYOUT \<noteq> [] \<and> hd MAZE_LAYOUT \<noteq> []"
    using maze_hd_length ROWS_eq by (auto simp add: ROWS_def)
  ultimately have "\<not> isl load_dots"
    by (simp add: load_dots_def load_dots_of_fails_iff)
  with a show ?thesis by simp
qed

text \<open>
  A table whose second row is longer is loaded; one whose second row is shorter raises
  \<open>IndexError\<close>.
\<close>

theorem maze_load_unvalidated_witness:
  "ragged_long \<noteq> [] \<and> hd ragged_long \<noteq> [] \<and> \<not> rectangular ragged_long \<and>
   list_all (\<lambda>line. length (hd ragged_long) \<le> length line) ragged_long \<and>
   \<not> isl (load_dots_of ragged_long) \<and>
   load_dots_of ragged_long = Inr ({|(1, 0), (1, 1)|}, {||}) \<and>
   list_ex (\<lambda>line. length line < length (hd ragged_short)) ragged_short \<and>
   isl (load_dots_of ragged_short) \<and>
   load_dots_of ragged_short = Inl IndexError"
proof -
  have a: "ragged_long \<noteq> [] \<and> hd ragged_long \<noteq> [] \<and> \<not> rectangular ragged_long"
    by (simp add: ragged_long_def rectangular_def)
  have a': "list_all (\<lambda>line. length (hd ragged_long) \<le> length line) ragged_long"
    by (simp add: ragged_long_def)
  have b: "load_dots_of ragged_long = Inr ({|(1, 0), (1, 1)|}, {||})" by code_simp
  have c: "list_ex (\<lambda>line. length line < length (hd ragged_short)) ragged_short"
    by (simp add: ragged_short_def)
  have d: "load_dots_of ragged_short = Inl IndexError" by code_simp
  from a' have a'': "\<forall>line \<in> set ragged_long. length (hd ragged_long) \<le> length line"
    by (simp add: list_all_iff)
  from c have c': "\<exists>line \<in> set ragged_short. length line < length (hd ragged_short)"
    by (simp add: list_ex_iff)
  from a a'' maze_load_unvalidated [of ragged_long] have e: "\<not> isl (load_dots_of ragged_long)"
    by blast
  from c' maze_load_unvalidated [of ragged_short IndexError] have f: "isl (load_dots_of ragged_short)"
    by blast
  from a a' b c d e f show ?thesis by blast
qed

end
